theory Spec2Isabelle
  imports Complex_Main "HOL-Library.Log_Nat"
begin

section \<open>JavaScript numbers\<close>

text \<open>
  A JavaScript number is an IEEE 754 binary64 value: a finite double, given by the rational
  it denotes, one of the two infinities, or NaN. The two zeros are not told apart (they
  compare equal and are both falsy). \<open>Num x\<close> is a double when \<open>fl x = Num x\<close>, with
  \<open>fl\<close> as below; the operations return doubles, and the numbers of the examples are
  doubles.
\<close>

datatype number = Num rat | PInf | NInf | NaN

text \<open>\<open>ilog2 x\<close> is the integer \<open>k\<close> with \<open>2 ^ k \<le> x < 2 ^ (k + 1)\<close>, for \<open>x > 0\<close>.\<close>

definition ilog2 :: "rat \<Rightarrow> int" where
  "ilog2 x =
     (let k = bitlen (fst (quotient_of x)) - bitlen (snd (quotient_of x))
      in if 2 powi k \<le> x then k else k - 1)"

text \<open>Rounding to the nearest integer, a tie going to the even one.\<close>

definition round_half_even :: "rat \<Rightarrow> int" where
  "round_half_even x =
     (let f = \<lfloor>x\<rfloor>
      in if x - of_int f < 1 / 2 then f
         else if 1 / 2 < x - of_int f then f + 1
         else if even f then f else f + 1)"

text \<open>
  \<open>fl x\<close> is the double nearest to the rational \<open>x\<close> (round to nearest, ties to even):
  the magnitude is rounded to a multiple of \<open>2 ^ e\<close>, where \<open>e\<close> leaves 53 significant
  bits and is at least -1074 (the spacing of the subnormal doubles); a result of magnitude
  \<open>2 ^ 1024\<close> or more is an infinity. Every arithmetic operation of JavaScript returns
  \<open>fl\<close> of the exact result, and a decimal literal denotes \<open>fl\<close> of its value.
\<close>

definition fl_pack :: "bool \<Rightarrow> rat \<Rightarrow> number" where
  "fl_pack pos y =
     (if 2 powi 1024 \<le> y then (if pos then PInf else NInf)
      else Num (if pos then y else - y))"

definition fl_at :: "bool \<Rightarrow> rat \<Rightarrow> int \<Rightarrow> number" where
  "fl_at pos a e = fl_pack pos (of_int (round_half_even (a / 2 powi e)) * 2 powi e)"

definition fl :: "rat \<Rightarrow> number" where
  "fl x =
     (if x = 0 then Num 0
      else fl_at (0 < x) \<bar>x\<bar> (max (ilog2 \<bar>x\<bar> - 52) (- 1074)))"

text \<open>The operators \<^verbatim>\<open>*\<close>, \<^verbatim>\<open>+\<close>, \<^verbatim>\<open>/\<close> and \<^verbatim>\<open><\<close> on numbers.\<close>

fun fmul :: "number \<Rightarrow> number \<Rightarrow> number" where
  "fmul (Num a) (Num b) = fl (a * b)"
| "fmul NaN y = NaN"
| "fmul x NaN = NaN"
| "fmul (Num a) PInf = (if a = 0 then NaN else if 0 < a then PInf else NInf)"
| "fmul (Num a) NInf = (if a = 0 then NaN else if 0 < a then NInf else PInf)"
| "fmul PInf (Num b) = (if b = 0 then NaN else if 0 < b then PInf else NInf)"
| "fmul NInf (Num b) = (if b = 0 then NaN else if 0 < b then NInf else PInf)"
| "fmul PInf PInf = PInf"
| "fmul PInf NInf = NInf"
| "fmul NInf PInf = NInf"
| "fmul NInf NInf = PInf"

fun fadd :: "number \<Rightarrow> number \<Rightarrow> number" where
  "fadd (Num a) (Num b) = fl (a + b)"
| "fadd NaN y = NaN"
| "fadd x NaN = NaN"
| "fadd PInf NInf = NaN"
| "fadd NInf PInf = NaN"
| "fadd PInf y = PInf"
| "fadd NInf y = NInf"
| "fadd x PInf = PInf"
| "fadd x NInf = NInf"

text \<open>Division; the handlers divide by the literal 100 only, a zero divisor is taken as +0.\<close>

fun fdiv :: "number \<Rightarrow> number \<Rightarrow> number" where
  "fdiv (Num a) (Num b) =
     (if b = 0 then (if a = 0 then NaN else if 0 < a then PInf else NInf) else fl (a / b))"
| "fdiv NaN y = NaN"
| "fdiv x NaN = NaN"
| "fdiv (Num a) y = Num 0"
| "fdiv PInf (Num b) = (if 0 \<le> b then PInf else NInf)"
| "fdiv NInf (Num b) = (if 0 \<le> b then NInf else PInf)"
| "fdiv x y = NaN"

fun js_less :: "number \<Rightarrow> number \<Rightarrow> bool" where
  "js_less (Num a) (Num b) = (a < b)"
| "js_less (Num a) PInf = True"
| "js_less NInf (Num b) = True"
| "js_less NInf PInf = True"
| "js_less x y = False"

text \<open>Truthiness of a number: 0 and NaN are falsy.\<close>

fun truthy_number :: "number \<Rightarrow> bool" where
  "truthy_number (Num a) = (a \<noteq> 0)"
| "truthy_number NaN = False"
| "truthy_number x = True"

text \<open>
  \<^verbatim>\<open>Math.round\<close>: the nearest integer, a tie going up; the result is a double without
  further rounding. \<^verbatim>\<open>Math.min\<close> of two numbers.
\<close>

fun Math_round :: "number \<Rightarrow> number" where
  "Math_round (Num a) = Num (of_int \<lfloor>a + 1 / 2\<rfloor>)"
| "Math_round x = x"

definition Math_min :: "number \<Rightarrow> number \<Rightarrow> number" where
  "Math_min x y = (if x = NaN \<or> y = NaN then NaN else if js_less y x then y else x)"

text \<open>The number that an integer of a JSON body is parsed to.\<close>

definition of_quantity :: "int \<Rightarrow> number" where
  "of_quantity q = fl (of_int q)"

section \<open>Data model\<close>

text \<open>
  The documents of the Firestore collections that the order and coupon routes touch
  (\<^verbatim>\<open>functions/routes/orders.js\<close>, \<^verbatim>\<open>functions/routes/coupons.js\<close>).
  Prices and amounts are JavaScript numbers. Stock counters, usage counters and quantities
  are integers and are kept as unbounded integers: the value of a counter, and the value
  of the number that a quantity of a request is parsed to. Dates are natural numbers
  (milliseconds), absent (\<^verbatim>\<open>undefined\<close>/\<^verbatim>\<open>null\<close>) fields are \<open>None\<close>.
\<close>

text \<open>An address object of a request; the handlers copy it without looking into it.\<close>

type_synonym address = string

record variant =
  v_id :: string
  v_name :: string
  v_price :: "number option"
  v_stock :: int

record product =
  name :: string
  price :: number
  isActive :: bool
  stockQuantity :: int
  variants :: "variant list option"
  p_updatedAt :: nat

text \<open>
  One element of \<^verbatim>\<open>req.body.items\<close>. The handler reads \<^verbatim>\<open>productId\<close>, \<^verbatim>\<open>quantity\<close> and
  \<^verbatim>\<open>variantId\<close>; \<open>clientPrice\<close> stands for any price-like field a caller may add to the
  JSON of a line.
\<close>

record item =
  productId :: string
  quantity :: int
  variantId :: "string option"
  clientPrice :: "rat option"

record order_item =
  oi_productId :: string
  productName :: string
  productPrice :: number
  oi_quantity :: int
  oi_variantId :: "string option"
  variantName :: "string option"
  oi_subtotal :: number

record order =
  userId :: "string option"
  orderNumber :: string
  customerEmail :: string
  customerName :: string
  shippingAddress :: address
  billingAddress :: address
  o_items :: "order_item list"
  subtotal :: number
  tax :: number
  shipping :: number
  total :: number
  status :: string
  paymentStatus :: string
  paymentToken :: "string option"
  o_notes :: string
  createdAt :: nat
  updatedAt :: nat
  cancelledAt :: "nat option"
  cancellationReason :: "string option"
  cancelledBy :: "string option"

record coupon =
  code :: string
  description :: string
  discountType :: string
  discountValue :: number
  minOrderAmount :: "number option"
  maxDiscountAmount :: "number option"
  maxUses :: "int option"
  maxUsesPerUser :: "int option"
  startDate :: "nat option"
  expiryDate :: "nat option"
  applicableCategories :: "string list option"
  applicableProducts :: "string list option"
  c_isActive :: bool
  usedCount :: int
  lastUsedAt :: "nat option"

record coupon_usage =
  u_couponId :: string
  u_orderId :: string
  u_userId :: string
  u_userEmail :: string
  u_discountAmount :: rat
  appliedAt :: nat

text \<open>
  The database: \<^verbatim>\<open>products\<close> and \<^verbatim>\<open>orders\<close> are only addressed by document id, so
  they are maps; \<^verbatim>\<open>coupons\<close> is queried by field (\<^verbatim>\<open>where(...).limit(1)\<close>) and
  \<^verbatim>\<open>couponUsage\<close> is appended to and counted, so they are lists in document order.
\<close>

record db =
  products :: "string \<rightharpoonup> product"
  orders :: "string \<rightharpoonup> order"
  coupons :: "(string \<times> coupon) list"
  couponUsage :: "coupon_usage list"

text \<open>\<^verbatim>\<open>req.user\<close> as set by the authentication middleware.\<close>

record user =
  u_id :: string
  u_email :: string
  u_role :: string

text \<open>An error response: HTTP status, the \<^verbatim>\<open>error\<close> field and the \<^verbatim>\<open>message\<close> field.\<close>

record failure =
  status_code :: nat
  error :: string
  message :: string

section \<open>Firestore transactions\<close>

text \<open>
  \<^verbatim>\<open>db.runTransaction(callback)\<close>: the callback reads documents with
  \<^verbatim>\<open>transaction.get\<close> and buffers writes with \<^verbatim>\<open>transaction.update\<close> and
  \<^verbatim>\<open>transaction.set\<close>; the buffered writes are applied together when the callback
  returns, and not at all when it throws. Transactions commit one at a time; what a
  handler reads outside its transaction is read from the state at the time of that read.
  The retry on contention is not modelled: \<^verbatim>\<open>POST /\<close> is modelled one call at a time,
  and the transaction of \<^verbatim>\<open>POST /:id/cancel\<close> reads nothing, so nothing can contend
  with it.
\<close>

datatype tx_write =
  UpdateStock string int nat
    \<comment> \<open>\<^verbatim>\<open>update(productRef, {stockQuantity: increment(n), updatedAt})\<close>\<close>
| UpdateVariants string "variant list"
    \<comment> \<open>\<^verbatim>\<open>update(productRef, {variants})\<close>\<close>
| SetOrder string order
    \<comment> \<open>\<^verbatim>\<open>set(orderRef, order)\<close>\<close>
| UpdateCancelled string nat string string
    \<comment> \<open>\<^verbatim>\<open>update(orderRef, {status: 'cancelled', cancelledAt, cancellationReason, cancelledBy, updatedAt})\<close>\<close>

text \<open>
  The Firestore library is not part of the repository, so the one rule of
  \<^verbatim>\<open>transaction.get\<close> that the order loop depends on is a parameter of the model.
  \<open>ReadsBeforeWrites\<close> is the rule of the \<^verbatim>\<open>firebase-admin\<close> SDK that
  \<^verbatim>\<open>config/firebase.js\<close> loads: a \<^verbatim>\<open>get\<close> issued after the transaction has buffered a
  write throws the error whose message is \<open>READ_AFTER_WRITE_ERROR_MSG\<close>.
  \<open>ReadsFromSnapshot\<close> is the lenient alternative: every \<^verbatim>\<open>get\<close> is answered from the
  state the transaction started in, buffered writes being invisible to it.
\<close>

datatype read_rule = ReadsBeforeWrites | ReadsFromSnapshot

definition READ_AFTER_WRITE_ERROR_MSG :: string where
  "READ_AFTER_WRITE_ERROR_MSG =
     ''Firestore transactions require all reads to be executed before all writes.''"

definition tx_get :: "read_rule \<Rightarrow> db \<Rightarrow> tx_write list \<Rightarrow> string \<Rightarrow> string + product option" where
  "tx_get rule d ws pid =
     (if rule = ReadsBeforeWrites \<and> ws \<noteq> [] then Inl READ_AFTER_WRITE_ERROR_MSG
      else Inr (products d pid))"

text \<open>
  Applying one buffered write. \<^verbatim>\<open>update\<close> of a document that does not exist fails
  (\<open>None\<close>); \<^verbatim>\<open>set\<close> creates or replaces.
\<close>

fun apply_write :: "db \<Rightarrow> tx_write \<Rightarrow> db option" where
  "apply_write d (UpdateStock pid n t) =
     (case products d pid of
        None \<Rightarrow> None
      | Some p \<Rightarrow> Some (d\<lparr>products := (products d)(pid \<mapsto>
                      p\<lparr>stockQuantity := stockQuantity p + n, p_updatedAt := t\<rparr>)\<rparr>))"
| "apply_write d (UpdateVariants pid vs) =
     (case products d pid of
        None \<Rightarrow> None
      | Some p \<Rightarrow> Some (d\<lparr>products := (products d)(pid \<mapsto> p\<lparr>variants := Some vs\<rparr>)\<rparr>))"
| "apply_write d (SetOrder oid ord) = Some (d\<lparr>orders := (orders d)(oid \<mapsto> ord)\<rparr>)"
| "apply_write d (UpdateCancelled oid t reason actor) =
     (case orders d oid of
        None \<Rightarrow> None
      | Some ord \<Rightarrow> Some (d\<lparr>orders := (orders d)(oid \<mapsto>
                      ord\<lparr>status := ''cancelled'', cancelledAt := Some t,
                          cancellationReason := Some reason, cancelledBy := Some actor,
                          updatedAt := t\<rparr>)\<rparr>))"

fun commit :: "db \<Rightarrow> tx_write list \<Rightarrow> db option" where
  "commit d [] = Some d"
| "commit d (w # ws) = (case apply_write d w of None \<Rightarrow> None | Some d' \<Rightarrow> commit d' ws)"

definition COMMIT_NOT_FOUND :: string where
  "COMMIT_NOT_FOUND = ''NOT_FOUND: No document to update''"

text \<open>
  \<open>runTransaction d r\<close>: \<open>r\<close> is what the callback did on the state \<open>d\<close>, either the
  message of the error it threw or its return value with the writes it buffered.
\<close>

definition runTransaction :: "db \<Rightarrow> string + ('a \<times> tx_write list) \<Rightarrow> (string + 'a) \<times> db" where
  "runTransaction d r =
     (case r of
        Inl msg \<Rightarrow> (Inl msg, d)
      | Inr (v, ws) \<Rightarrow>
          (case commit d ws of
             None \<Rightarrow> (Inl COMMIT_NOT_FOUND, d)
           | Some d' \<Rightarrow> (Inr v, d')))"

section \<open>Create order\<close>

text \<open>JavaScript truthiness of an optional string and of an optional number.\<close>

definition truthy_str :: "string option \<Rightarrow> bool" where
  "truthy_str s = (case s of None \<Rightarrow> False | Some x \<Rightarrow> x \<noteq> [])"

definition truthy_num :: "number option \<Rightarrow> bool" where
  "truthy_num n = (case n of None \<Rightarrow> False | Some x \<Rightarrow> truthy_number x)"

text \<open>\<^verbatim>\<open>Array.prototype.findIndex\<close>, with \<open>None\<close> for \<^verbatim>\<open>-1\<close>.\<close>

fun findIndex :: "('a \<Rightarrow> bool) \<Rightarrow> 'a list \<Rightarrow> nat option" where
  "findIndex P [] = None"
| "findIndex P (x # xs) =
     (if P x then Some 0 else (case findIndex P xs of None \<Rightarrow> None | Some i \<Rightarrow> Some (Suc i)))"

text \<open>
  The first \<^verbatim>\<open>if\<close> on variants of the loop body (lines 78 to 87): the variant the line
  selects, if any.
\<close>

definition selected_variant :: "item \<Rightarrow> product \<Rightarrow> variant option" where
  "selected_variant it p =
     (case variants p of
        None \<Rightarrow> None
      | Some vs \<Rightarrow>
          if truthy_str (variantId it) \<and> length vs > 0
          then List.find (\<lambda>v. Some (v_id v) = variantId it) vs
          else None)"

text \<open>
  The second \<^verbatim>\<open>if\<close> on variants (lines 109 to 117): the write of the variant array with
  the stock of the selected variant reduced, if the line selects one.
\<close>

definition variant_writes :: "item \<Rightarrow> product \<Rightarrow> tx_write list" where
  "variant_writes it p =
     (case variants p of
        None \<Rightarrow> []
      | Some vs \<Rightarrow>
          if truthy_str (variantId it)
          then (case findIndex (\<lambda>v. Some (v_id v) = variantId it) vs of
                  None \<Rightarrow> []
                | Some i \<Rightarrow>
                    [UpdateVariants (productId it)
                       (vs[i := (vs ! i)\<lparr>v_stock := v_stock (vs ! i) - quantity it\<rparr>])])
          else [])"

text \<open>
  The state of the loop over \<^verbatim>\<open>items\<close>: \<^verbatim>\<open>subtotal\<close>, \<^verbatim>\<open>orderItems\<close> and the writes
  buffered so far.
\<close>

type_synonym loop_state = "number \<times> order_item list \<times> tx_write list"

text \<open>One iteration of \<^verbatim>\<open>for (const item of items)\<close>, lines 56 to 118.\<close>

definition processItem :: "read_rule \<Rightarrow> db \<Rightarrow> nat \<Rightarrow> loop_state \<Rightarrow> item \<Rightarrow> string + loop_state" where
  "processItem rule d now st it =
     (case st of (sub, ois, ws) \<Rightarrow>
      (case tx_get rule d ws (productId it) of
         Inl e \<Rightarrow> Inl e
       | Inr None \<Rightarrow> Inl (''Product '' @ productId it @ '' not found'')
       | Inr (Some p) \<Rightarrow>
           if \<not> isActive p then Inl (''Product '' @ name p @ '' is not available'')
           else if stockQuantity p < quantity it
           then Inl (''Insufficient stock for product '' @ name p)
           else
             (case selected_variant it p of
                Some v \<Rightarrow>
                  if v_stock v < quantity it
                  then Inl (''Insufficient stock for variant '' @ v_name v)
                  else
                    (let itemPrice = (if truthy_num (v_price v) then the (v_price v) else price p);
                         itemSubtotal = fmul itemPrice (of_quantity (quantity it))
                     in Inr (fadd sub itemSubtotal,
                             ois @ [\<lparr>oi_productId = productId it, productName = name p,
                                     productPrice = itemPrice, oi_quantity = quantity it,
                                     oi_variantId = (if truthy_str (variantId it) then variantId it else None),
                                     variantName = Some (v_name v), oi_subtotal = itemSubtotal\<rparr>],
                             ws @ UpdateStock (productId it) (- quantity it) now # variant_writes it p))
              | None \<Rightarrow>
                  (let itemPrice = price p;
                       itemSubtotal = fmul itemPrice (of_quantity (quantity it))
                   in Inr (fadd sub itemSubtotal,
                           ois @ [\<lparr>oi_productId = productId it, productName = name p,
                                   productPrice = itemPrice, oi_quantity = quantity it,
                                   oi_variantId = (if truthy_str (variantId it) then variantId it else None),
                                   variantName = None, oi_subtotal = itemSubtotal\<rparr>],
                           ws @ UpdateStock (productId it) (- quantity it) now # variant_writes it p)))))"

text \<open>The loop: the first iteration that throws ends it.\<close>

fun processItems :: "read_rule \<Rightarrow> db \<Rightarrow> nat \<Rightarrow> loop_state \<Rightarrow> item list \<Rightarrow> string + loop_state" where
  "processItems rule d now st [] = Inr st"
| "processItems rule d now st (it # its) =
     (case processItem rule d now st it of
        Inl e \<Rightarrow> Inl e
      | Inr st' \<Rightarrow> processItems rule d now st' its)"

text \<open>
  What the request handler takes from outside the request and the database: the clock,
  the result of \<^verbatim>\<open>generateOrderNumber()\<close> and the id of the fresh document reference
  \<^verbatim>\<open>db.collection('orders').doc()\<close>.
\<close>

record env =
  now :: nat
  newOrderNumber :: string
  newOrderId :: string

text \<open>
  The body of \<^verbatim>\<open>POST /\<close>. \<open>fieldsValid\<close> is the outcome of the express-validator
  checks on \<^verbatim>\<open>customerEmail\<close>, \<^verbatim>\<open>customerName\<close>, \<^verbatim>\<open>shippingAddress\<close>,
  \<^verbatim>\<open>billingAddress\<close> and \<^verbatim>\<open>paymentToken\<close> (library code); \<open>clientTotal\<close> stands for
  any price-like field a caller may add to the body, and \<open>couponCode\<close> is the field of
  that name that the interface of the specification lists; the handler destructures
  neither of them from the body.
\<close>

record order_request =
  items :: "item list"
  r_customerEmail :: string
  r_customerName :: string
  r_shippingAddress :: address
  r_billingAddress :: "address option"
  r_notes :: "string option"
  r_paymentToken :: "string option"
  fieldsValid :: bool
  clientTotal :: "rat option"
  couponCode :: "string option"

text \<open>
  The validators of lines 19 to 27: \<^verbatim>\<open>isArray({min: 1})\<close> on \<^verbatim>\<open>items\<close> and
  \<^verbatim>\<open>isInt({min: 1})\<close> on every \<^verbatim>\<open>quantity\<close>. \<^verbatim>\<open>isInt\<close> tests the text
  \<^verbatim>\<open>String(quantity)\<close> against the pattern of a decimal integer; from \<open>10 ^ 21\<close> on that
  text is in exponent form (\<^verbatim>\<open>1e+21\<close>) and does not match. A quantity is a JSON number
  here; a quantity sent as a string of digits, which \<^verbatim>\<open>isInt\<close> admits too, is not
  modelled.
\<close>

definition validationResult :: "order_request \<Rightarrow> bool" where
  "validationResult r =
     (length (items r) \<ge> 1 \<and>
      list_all (\<lambda>it. 1 \<le> quantity it \<and> quantity it < 10 ^ 21) (items r) \<and>
      fieldsValid r)"

text \<open>The transaction callback, lines 51 to 156: returns the order and the buffered writes.\<close>

definition placeOrder_tx ::
    "read_rule \<Rightarrow> env \<Rightarrow> user option \<Rightarrow> db \<Rightarrow> order_request \<Rightarrow> string + ((string \<times> order) \<times> tx_write list)" where
  "placeOrder_tx rule e u d r =
     (case processItems rule d (now e) (Num 0, [], []) (items r) of
        Inl msg \<Rightarrow> Inl msg
      | Inr (sub, ois, ws) \<Rightarrow>
          (let tax_v = fmul sub (fl (1 / 10));
               shipping_v = (if js_less (Num 50) sub then Num 0 else fl (999 / 100));
               total_v = fadd (fadd sub tax_v) shipping_v;
               ord = \<lparr>userId = (case u of None \<Rightarrow> None | Some usr \<Rightarrow> Some (u_id usr)),
                      orderNumber = newOrderNumber e,
                      customerEmail = r_customerEmail r,
                      customerName = r_customerName r,
                      shippingAddress = r_shippingAddress r,
                      billingAddress = (case r_billingAddress r of
                                          None \<Rightarrow> r_shippingAddress r
                                        | Some b \<Rightarrow> b),
                      o_items = ois,
                      subtotal = sub, tax = tax_v, shipping = shipping_v, total = total_v,
                      status = ''pending'', paymentStatus = ''pending'',
                      paymentToken = (if truthy_str (r_paymentToken r) then r_paymentToken r else None),
                      o_notes = (if truthy_str (r_notes r) then the (r_notes r) else ''''),
                      createdAt = now e, updatedAt = now e,
                      cancelledAt = None, cancellationReason = None, cancelledBy = None\<rparr>
           in Inr ((newOrderId e, ord), ws @ [SetOrder (newOrderId e) ord])))"

text \<open>
  The handler of \<^verbatim>\<open>POST /\<close>: the response (\<open>Inr\<close>: status 201 with the id and the order;
  \<open>Inl\<close>: an error response) and the database after the call.
\<close>

definition placeOrder ::
    "read_rule \<Rightarrow> env \<Rightarrow> user option \<Rightarrow> db \<Rightarrow> order_request \<Rightarrow> (failure + (nat \<times> string \<times> order)) \<times> db" where
  "placeOrder rule e u d r =
     (if \<not> validationResult r
      then (Inl \<lparr>status_code = 400, error = ''ValidationError'', message = ''Invalid input''\<rparr>, d)
      else
        (case runTransaction d (placeOrder_tx rule e u d r) of
           (Inl msg, d') \<Rightarrow>
             (Inl \<lparr>status_code = 500, error = ''ServerError'',
                   message = (if msg = [] then ''Failed to create order'' else msg)\<rparr>, d')
         | (Inr (oid, ord), d') \<Rightarrow> (Inr (201, oid, ord), d')))"

text \<open>
  A sequence of calls of \<^verbatim>\<open>POST /\<close>, each on the database the previous one left:
  the responses in order and the final database.
\<close>

fun placeOrders ::
    "read_rule \<Rightarrow> db \<Rightarrow> (env \<times> user option \<times> order_request) list
       \<Rightarrow> (failure + (nat \<times> string \<times> order)) list \<times> db" where
  "placeOrders rule d [] = ([], d)"
| "placeOrders rule d (c # cs) =
     (case c of (e, u, r) \<Rightarrow>
        (case placeOrder rule e u d r of (res, d') \<Rightarrow>
           (case placeOrders rule d' cs of (rs, d'') \<Rightarrow> (res # rs, d''))))"

text \<open>
  The decrement that a response stands for on the product \<open>pid\<close>: the quantities of the
  lines of the created order on that product, and nothing for an error response.
\<close>

definition decrement_of :: "string \<Rightarrow> failure + (nat \<times> string \<times> order) \<Rightarrow> int" where
  "decrement_of pid res =
     (case res of
        Inl f \<Rightarrow> 0
      | Inr (c, oid, ord) \<Rightarrow>
          sum_list (map oi_quantity (filter (\<lambda>oi. oi_productId oi = pid) (o_items ord))))"

text \<open>The request with every client-supplied price-like field removed.\<close>

definition strip_prices :: "order_request \<Rightarrow> order_request" where
  "strip_prices r =
     r\<lparr>items := map (\<lambda>it. it\<lparr>clientPrice := None\<rparr>) (items r), clientTotal := None\<rparr>"

text \<open>
  From the words of the specification: rounding to two decimal places with round-half-up,
  and the total of an order, which is subtotal minus discount plus tax plus shipping,
  rounded in that way; the stored total is the double nearest to it.
\<close>

definition round_half_up_2dp :: "rat \<Rightarrow> rat" where
  "round_half_up_2dp x = of_int \<lfloor>x * 100 + 1 / 2\<rfloor> / 100"

definition spec_total :: "number \<Rightarrow> rat \<Rightarrow> number \<Rightarrow> number \<Rightarrow> number" where
  "spec_total sub discount tx sh =
     (case (sub, tx, sh) of
        (Num a, Num b, Num c) \<Rightarrow> fl (round_half_up_2dp (a - discount + b + c))
      | _ \<Rightarrow> NaN)"

section \<open>Cancel order\<close>

text \<open>The writes of the transaction of \<^verbatim>\<open>POST /:id/cancel\<close>, lines 401 to 419.\<close>

definition cancelOrder_tx :: "nat \<Rightarrow> user \<Rightarrow> string \<Rightarrow> order \<Rightarrow> string option \<Rightarrow> tx_write list" where
  "cancelOrder_tx t u oid ord reason =
     map (\<lambda>oi. UpdateStock (oi_productId oi) (oi_quantity oi) t) (o_items ord)
     @ [UpdateCancelled oid t
          (if truthy_str reason then the reason else ''Cancelled by customer'') (u_id u)]"

text \<open>
  The handler of \<^verbatim>\<open>POST /:id/cancel\<close>, lines 364 to 439, in its two parts. The first
  part, lines 369 to 398, runs before the transaction: it reads the order document with
  \<^verbatim>\<open>orderRef.get()\<close> and answers 404, 403 or 400, or goes on with the order it has read.
\<close>

definition cancelOrder_read :: "user \<Rightarrow> db \<Rightarrow> string \<Rightarrow> failure + order" where
  "cancelOrder_read u d oid =
     (case orders d oid of
        None \<Rightarrow> Inl \<lparr>status_code = 404, error = ''NOT_FOUND'', message = ''Order not found''\<rparr>
      | Some ord \<Rightarrow>
          if u_role u \<noteq> ''GronderfulBlogs'' \<and> userId ord \<noteq> Some (u_id u)
          then Inl \<lparr>status_code = 403, error = ''FORBIDDEN'', message = ''Access denied''\<rparr>
          else if status ord \<notin> set [''pending'', ''processing'']
          then Inl \<lparr>status_code = 400, error = ''INVALID_STATUS'',
                    message = ''Cannot cancel order with status: '' @ status ord\<rparr>
          else Inr ord)"

text \<open>
  The second part, lines 401 to 438: the transaction, which reads nothing and writes from
  the order \<open>ord\<close> that the first part has read, then the response (\<open>Inr\<close>: status 200
  with the order document read back after the transaction). \<open>d\<close> is the database at the
  time the transaction commits.
\<close>

definition cancelOrder_commit ::
    "nat \<Rightarrow> user \<Rightarrow> db \<Rightarrow> string \<Rightarrow> order \<Rightarrow> string option \<Rightarrow> (failure + order option) \<times> db" where
  "cancelOrder_commit t u d oid ord reason =
     (case runTransaction d (Inr ((), cancelOrder_tx t u oid ord reason)) of
        (Inl msg, d') \<Rightarrow>
          (Inl \<lparr>status_code = 500, error = ''SERVER_ERROR'',
                message = ''Failed to cancel order''\<rparr>, d')
      | (Inr x, d') \<Rightarrow> (Inr (orders d' oid), d'))"

text \<open>A call of the handler that no other request overlaps: both parts on one state.\<close>

definition cancelOrder ::
    "nat \<Rightarrow> user \<Rightarrow> db \<Rightarrow> string \<Rightarrow> string option \<Rightarrow> (failure + order option) \<times> db" where
  "cancelOrder t u d oid reason =
     (case cancelOrder_read u d oid of
        Inl f \<Rightarrow> (Inl f, d)
      | Inr ord \<Rightarrow> cancelOrder_commit t u d oid ord reason)"

text \<open>
  Two calls of the handler for the same order that overlap: both read the order before
  either transaction commits, then the transaction of the first call commits, then that
  of the second. The two responses and the database after both calls.
\<close>

definition cancelOrder_overlapping ::
    "nat \<Rightarrow> user \<Rightarrow> string option \<Rightarrow> nat \<Rightarrow> user \<Rightarrow> string option \<Rightarrow> db \<Rightarrow> string
       \<Rightarrow> (failure + order option) \<times> (failure + order option) \<times> db" where
  "cancelOrder_overlapping t1 u1 reason1 t2 u2 reason2 d oid =
     (let read1 = cancelOrder_read u1 d oid;
          read2 = cancelOrder_read u2 d oid;
          (res1, d1) = (case read1 of
                          Inl f \<Rightarrow> (Inl f, d)
                        | Inr ord \<Rightarrow> cancelOrder_commit t1 u1 d oid ord reason1);
          (res2, d2) = (case read2 of
                          Inl f \<Rightarrow> (Inl f, d1)
                        | Inr ord \<Rightarrow> cancelOrder_commit t2 u2 d1 oid ord reason2)
      in (res1, res2, d2))"

section \<open>Coupons\<close>

text \<open>\<^verbatim>\<open>String.prototype.toUpperCase\<close> on the ASCII letters; other characters are kept.\<close>

definition toUpperCase_char :: "char \<Rightarrow> char" where
  "toUpperCase_char c =
     (let n = (of_char c :: nat) in if 97 \<le> n \<and> n \<le> 122 then char_of (n - 32) else c)"

definition toUpperCase :: "string \<Rightarrow> string" where
  "toUpperCase s = map toUpperCase_char s"

text \<open>
  The body of \<^verbatim>\<open>POST /validate\<close>; \<open>vr_code\<close> is \<^verbatim>\<open>code\<close> after the \<^verbatim>\<open>trim()\<close>
  sanitiser, \<open>orderTotal\<close> is the number that \<^verbatim>\<open>orderTotal\<close> denotes (every use of it by
  the handler is numeric), \<open>productIds\<close> already has its default \<^verbatim>\<open>[]\<close>.
\<close>

record validate_request =
  vr_code :: string
  orderTotal :: number
  vr_userId :: "string option"
  categoryId :: "string option"
  productIds :: "string list"

text \<open>The \<^verbatim>\<open>coupon\<close> object of the success response of \<^verbatim>\<open>POST /validate\<close>.\<close>

record coupon_info =
  ci_id :: string
  ci_code :: string
  ci_discountType :: string
  ci_discountValue :: number
  ci_discountAmount :: number
  ci_description :: string
  ci_freeShipping :: bool

text \<open>
  The query \<^verbatim>\<open>where('code', '==', code.toUpperCase()).where('isActive', '==', true).limit(1)\<close>.
\<close>

definition find_coupon :: "db \<Rightarrow> string \<Rightarrow> (string \<times> coupon) option" where
  "find_coupon d c =
     List.find (\<lambda>kc. code (snd kc) = toUpperCase c \<and> c_isActive (snd kc)) (coupons d)"

text \<open>The conditions of the seven checks after the lookup, lines 57 to 134, one each.\<close>

definition not_started :: "nat \<Rightarrow> coupon \<Rightarrow> bool" where
  "not_started t c = (case startDate c of None \<Rightarrow> False | Some s \<Rightarrow> s > t)"

definition expired :: "nat \<Rightarrow> coupon \<Rightarrow> bool" where
  "expired t c = (case expiryDate c of None \<Rightarrow> False | Some x \<Rightarrow> x < t)"

definition limit_reached :: "coupon \<Rightarrow> bool" where
  "limit_reached c = (case maxUses c of None \<Rightarrow> False | Some m \<Rightarrow> m \<noteq> 0 \<and> usedCount c \<ge> m)"

definition user_usage_count :: "db \<Rightarrow> string \<Rightarrow> string \<Rightarrow> int" where
  "user_usage_count d cid uid =
     int (length (filter (\<lambda>us. u_couponId us = cid \<and> u_userId us = uid) (couponUsage d)))"

definition user_limit_reached :: "db \<Rightarrow> string \<Rightarrow> coupon \<Rightarrow> validate_request \<Rightarrow> bool" where
  "user_limit_reached d cid c r =
     (case vr_userId r of
        None \<Rightarrow> False
      | Some uid \<Rightarrow>
          uid \<noteq> [] \<and>
          (case maxUsesPerUser c of
             None \<Rightarrow> False
           | Some m \<Rightarrow> m \<noteq> 0 \<and> user_usage_count d cid uid \<ge> m))"

definition minimum_not_met :: "coupon \<Rightarrow> validate_request \<Rightarrow> bool" where
  "minimum_not_met c r =
     (case minOrderAmount c of
        None \<Rightarrow> False
      | Some m \<Rightarrow> truthy_number m \<and> js_less (orderTotal r) m)"

definition category_not_applicable :: "coupon \<Rightarrow> validate_request \<Rightarrow> bool" where
  "category_not_applicable c r =
     (case applicableCategories c of
        None \<Rightarrow> False
      | Some cs \<Rightarrow>
          length cs > 0 \<and>
          (\<not> truthy_str (categoryId r) \<or> the (categoryId r) \<notin> set cs))"

definition product_not_applicable :: "coupon \<Rightarrow> validate_request \<Rightarrow> bool" where
  "product_not_applicable c r =
     (case applicableProducts c of
        None \<Rightarrow> False
      | Some ps \<Rightarrow> length ps > 0 \<and> \<not> list_ex (\<lambda>pid. pid \<in> set ps) (productIds r))"

text \<open>The discount of the success response, lines 136 to 163.\<close>

definition discount_amount :: "coupon \<Rightarrow> number \<Rightarrow> number" where
  "discount_amount c tot =
     (let d0 = (if discountType c = ''percentage''
                then (let pc = fdiv (fmul tot (discountValue c)) (Num 100)
                      in (case maxDiscountAmount c of
                            None \<Rightarrow> pc
                          | Some m \<Rightarrow> if truthy_number m then Math_min pc m else pc))
                else if discountType c = ''fixed'' then discountValue c
                else Num 0)
      in Math_min d0 tot)"

definition coupon_response :: "string \<Rightarrow> coupon \<Rightarrow> number \<Rightarrow> coupon_info" where
  "coupon_response cid c tot =
     \<lparr>ci_id = cid, ci_code = code c, ci_discountType = discountType c,
      ci_discountValue = discountValue c,
      ci_discountAmount = fdiv (Math_round (fmul (discount_amount c tot) (Num 100))) (Num 100),
      ci_description = description c,
      ci_freeShipping = (discountType c = ''freeShipping'')\<rparr>"

text \<open>
  The validators of lines 12 and 13: \<^verbatim>\<open>notEmpty()\<close> on the trimmed code and
  \<^verbatim>\<open>isFloat({min: 0})\<close> on \<^verbatim>\<open>orderTotal\<close>, which a finite number that is not negative
  passes.
\<close>

definition validate_body_ok :: "validate_request \<Rightarrow> bool" where
  "validate_body_ok r =
     (vr_code r \<noteq> [] \<and> (case orderTotal r of Num x \<Rightarrow> 0 \<le> x | _ \<Rightarrow> False))"

text \<open>
  The handler of \<^verbatim>\<open>POST /validate\<close>, lines 18 to 172, at the time \<open>t\<close>: the status and
  \<^verbatim>\<open>error\<close> code of an error response, or the coupon of the success response. The
  handler writes nothing.
\<close>

definition validateCoupon :: "nat \<Rightarrow> db \<Rightarrow> validate_request \<Rightarrow> (nat \<times> string) + coupon_info" where
  "validateCoupon t d r =
     (if \<not> validate_body_ok r then Inl (400, ''VALIDATION_ERROR'')
      else
        (case find_coupon d (vr_code r) of
           None \<Rightarrow> Inl (404, ''INVALID_COUPON'')
         | Some (cid, c) \<Rightarrow>
             if not_started t c then Inl (400, ''COUPON_NOT_STARTED'')
             else if expired t c then Inl (400, ''COUPON_EXPIRED'')
             else if limit_reached c then Inl (400, ''COUPON_LIMIT_REACHED'')
             else if user_limit_reached d cid c r then Inl (400, ''USER_LIMIT_REACHED'')
             else if minimum_not_met c r then Inl (400, ''MINIMUM_NOT_MET'')
             else if category_not_applicable c r then Inl (400, ''CATEGORY_NOT_APPLICABLE'')
             else if product_not_applicable c r then Inl (400, ''PRODUCT_NOT_APPLICABLE'')
             else Inr (coupon_response cid c (orderTotal r))))"

text \<open>The \<^verbatim>\<open>error\<close> code of a response of \<^verbatim>\<open>POST /validate\<close>, \<open>None\<close> for a success.\<close>

definition error_code :: "(nat \<times> string) + coupon_info \<Rightarrow> string option" where
  "error_code res = (case res of Inl (st, e) \<Rightarrow> Some e | Inr i \<Rightarrow> None)"

text \<open>
  From the words of the specification, and independent of the handler above: what each
  check of \<open>Validate\<close> asks of a coupon that passes it. The coupon exists and is active;
  the time is inside the validity window; the global \<open>usedCount\<close> is below \<open>maxUses\<close>;
  the number of usage records with this coupon id and this user id is below
  \<open>maxUsesPerUser\<close>; the order total is at least the minimum order amount; the category
  is one of the applicable categories; one of the products is an applicable product. A
  constraint that the coupon does not have (\<open>None\<close>, or an empty list of categories or
  products) asks nothing, and so does the per-user limit when the call names no user.
\<close>

definition spec_lookup :: "db \<Rightarrow> string \<Rightarrow> (string \<times> coupon) option" where
  "spec_lookup d c =
     (case filter (\<lambda>kc. c_isActive (snd kc)) (filter (\<lambda>kc. code (snd kc) = c) (coupons d)) of
        [] \<Rightarrow> None
      | kc # kcs \<Rightarrow> Some kc)"

definition spec_started :: "nat \<Rightarrow> coupon \<Rightarrow> bool" where
  "spec_started t c = (\<forall>s \<in> set_option (startDate c). s \<le> t)"

definition spec_not_expired :: "nat \<Rightarrow> coupon \<Rightarrow> bool" where
  "spec_not_expired t c = (\<forall>x \<in> set_option (expiryDate c). t \<le> x)"

definition spec_under_limit :: "coupon \<Rightarrow> bool" where
  "spec_under_limit c = (\<forall>m \<in> set_option (maxUses c). usedCount c < m)"

definition spec_usage_count :: "db \<Rightarrow> string \<Rightarrow> string \<Rightarrow> int" where
  "spec_usage_count d cid uid =
     int (count_list (map (\<lambda>us. (u_couponId us, u_userId us)) (couponUsage d)) (cid, uid))"

definition spec_under_user_limit :: "db \<Rightarrow> string \<Rightarrow> coupon \<Rightarrow> validate_request \<Rightarrow> bool" where
  "spec_under_user_limit d cid c r =
     (\<forall>uid \<in> set_option (vr_userId r). \<forall>m \<in> set_option (maxUsesPerUser c).
        spec_usage_count d cid uid < m)"

fun at_least :: "number \<Rightarrow> number \<Rightarrow> bool" where
  "at_least (Num a) (Num b) = (b \<le> a)"
| "at_least NaN y = False"
| "at_least x NaN = False"
| "at_least PInf y = True"
| "at_least x NInf = True"
| "at_least x y = False"

definition spec_minimum_met :: "coupon \<Rightarrow> validate_request \<Rightarrow> bool" where
  "spec_minimum_met c r = (\<forall>m \<in> set_option (minOrderAmount c). at_least (orderTotal r) m)"

definition spec_category_ok :: "coupon \<Rightarrow> validate_request \<Rightarrow> bool" where
  "spec_category_ok c r =
     (case applicableCategories c of
        None \<Rightarrow> True
      | Some cs \<Rightarrow> cs = [] \<or> (\<exists>cat \<in> set_option (categoryId r). cat \<in> set cs))"

definition spec_product_ok :: "coupon \<Rightarrow> validate_request \<Rightarrow> bool" where
  "spec_product_ok c r =
     (case applicableProducts c of
        None \<Rightarrow> True
      | Some ps \<Rightarrow> ps = [] \<or> set (productIds r) \<inter> set ps \<noteq> {})"

text \<open>
  The checks after the lookup in the order the specification gives, each with the error
  code of its failure; the first check that fails decides the response and the checks
  after it are not consulted.
\<close>

definition spec_checks ::
    "nat \<Rightarrow> db \<Rightarrow> string \<Rightarrow> coupon \<Rightarrow> validate_request \<Rightarrow> (bool \<times> string) list" where
  "spec_checks t d cid c r =
     [(spec_started t c, ''COUPON_NOT_STARTED''),
      (spec_not_expired t c, ''COUPON_EXPIRED''),
      (spec_under_limit c, ''COUPON_LIMIT_REACHED''),
      (spec_under_user_limit d cid c r, ''USER_LIMIT_REACHED''),
      (spec_minimum_met c r, ''MINIMUM_NOT_MET''),
      (spec_category_ok c r, ''CATEGORY_NOT_APPLICABLE''),
      (spec_product_ok c r, ''PRODUCT_NOT_APPLICABLE'')]"

fun first_failing :: "(bool \<times> string) list \<Rightarrow> string option" where
  "first_failing [] = None"
| "first_failing (ch # chs) = (if fst ch then first_failing chs else Some (snd ch))"

text \<open>
  \<open>Validate\<close> as a whole: the error code of the call, \<open>None\<close> for a coupon that passes.
  A call without a code, or with an order total that is not a finite number or is
  negative, is malformed; a call whose code no active coupon has finds no coupon.
\<close>

fun finite_nonneg :: "number \<Rightarrow> bool" where
  "finite_nonneg (Num x) = (0 \<le> x)"
| "finite_nonneg x = False"

definition spec_validateCoupon :: "nat \<Rightarrow> db \<Rightarrow> validate_request \<Rightarrow> string option" where
  "spec_validateCoupon t d r =
     (if vr_code r = [] \<or> \<not> finite_nonneg (orderTotal r)
      then Some ''VALIDATION_ERROR''
      else
        (case spec_lookup d (vr_code r) of
           None \<Rightarrow> Some ''INVALID_COUPON''
         | Some (cid, c) \<Rightarrow> first_failing (spec_checks t d cid c r)))"

text \<open>
  How the handler reads a coupon and a request. A limit or minimum that is falsy in
  JavaScript (\<open>0\<close>, and \<open>NaN\<close> for an amount) is no limit; a user id or category id that
  is the empty string is no id; the code of the request is compared in upper case.
\<close>

definition truthy_limit :: "int option \<Rightarrow> int option" where
  "truthy_limit m = (case m of None \<Rightarrow> None | Some n \<Rightarrow> if n = 0 then None else Some n)"

definition truthy_amount :: "number option \<Rightarrow> number option" where
  "truthy_amount m = (case m of None \<Rightarrow> None | Some x \<Rightarrow> if truthy_number x then Some x else None)"

definition truthy_id :: "string option \<Rightarrow> string option" where
  "truthy_id s = (case s of None \<Rightarrow> None | Some x \<Rightarrow> if x = [] then None else Some x)"

definition coupon_as_read :: "coupon \<Rightarrow> coupon" where
  "coupon_as_read c =
     c\<lparr>maxUses := truthy_limit (maxUses c), maxUsesPerUser := truthy_limit (maxUsesPerUser c),
       minOrderAmount := truthy_amount (minOrderAmount c)\<rparr>"

definition coupons_as_read :: "db \<Rightarrow> db" where
  "coupons_as_read d = d\<lparr>coupons := map (\<lambda>kc. (fst kc, coupon_as_read (snd kc))) (coupons d)\<rparr>"

definition request_as_read :: "validate_request \<Rightarrow> validate_request" where
  "request_as_read r =
     r\<lparr>vr_code := toUpperCase (vr_code r), vr_userId := truthy_id (vr_userId r),
       categoryId := truthy_id (categoryId r)\<rparr>"

text \<open>The body of \<^verbatim>\<open>POST /apply\<close>.\<close>

record apply_request =
  ar_couponId :: string
  ar_orderId :: string
  ar_discountAmount :: rat

text \<open>\<^verbatim>\<open>doc(id).update(...)\<close> on a collection kept as a list.\<close>

definition doc_exists :: "string \<Rightarrow> (string \<times> 'a) list \<Rightarrow> bool" where
  "doc_exists k xs = list_ex (\<lambda>kv. fst kv = k) xs"

definition update_doc :: "string \<Rightarrow> ('a \<Rightarrow> 'a) \<Rightarrow> (string \<times> 'a) list \<Rightarrow> (string \<times> 'a) list" where
  "update_doc k f xs = map (\<lambda>kv. if fst kv = k then (fst kv, f (snd kv)) else kv) xs"

text \<open>
  The handler of \<^verbatim>\<open>POST /apply\<close>, lines 184 to 228, at the server time \<open>t\<close>: first
  \<^verbatim>\<open>couponUsage.add\<close>, then \<^verbatim>\<open>coupons.doc(couponId).update\<close> with
  \<^verbatim>\<open>increment(1)\<close>, each awaited on its own, outside any transaction. The second throws
  when the coupon document does not exist, after the first has been stored.
\<close>

definition applyCoupon :: "nat \<Rightarrow> user \<Rightarrow> db \<Rightarrow> apply_request \<Rightarrow> ((nat \<times> string) + string) \<times> db" where
  "applyCoupon t u d r =
     (if ar_couponId r = [] \<or> ar_orderId r = [] \<or> ar_discountAmount r < 0
      then (Inl (400, ''VALIDATION_ERROR''), d)
      else
        (let usageData = \<lparr>u_couponId = ar_couponId r, u_orderId = ar_orderId r,
                          u_userId = u_id u, u_userEmail = u_email u,
                          u_discountAmount = ar_discountAmount r, appliedAt = t\<rparr>;
             d1 = d\<lparr>couponUsage := couponUsage d @ [usageData]\<rparr>
         in if doc_exists (ar_couponId r) (coupons d1)
            then (Inr ''Coupon applied successfully'',
                  d1\<lparr>coupons := update_doc (ar_couponId r)
                                  (\<lambda>c. c\<lparr>usedCount := usedCount c + 1, lastUsedAt := Some t\<rparr>)
                                  (coupons d1)\<rparr>)
            else (Inl (500, ''SERVER_ERROR''), d1)))"

text \<open>A sequence of calls of \<^verbatim>\<open>POST /apply\<close>, each on the database the previous one left.\<close>

fun applyCoupons ::
    "db \<Rightarrow> (nat \<times> user \<times> apply_request) list \<Rightarrow> ((nat \<times> string) + string) list \<times> db" where
  "applyCoupons d [] = ([], d)"
| "applyCoupons d (c # cs) =
     (case c of (t, u, r) \<Rightarrow>
        (case applyCoupon t u d r of (res, d') \<Rightarrow>
           (case applyCoupons d' cs of (rs, d'') \<Rightarrow> (res # rs, d''))))"

section \<open>Example data\<close>

text \<open>
  A small shop used to run the handlers on concrete requests: a product without variants
  and with one unit in stock, a product with one variant, and a coupon that may be used
  once.
\<close>

definition widget :: product where
  "widget = \<lparr>name = ''Widget'', price = fl (101 / 100), isActive = True, stockQuantity = 1,
             variants = None, p_updatedAt = 0\<rparr>"

definition large :: variant where
  "large = \<lparr>v_id = ''v1'', v_name = ''Large'', v_price = Some (Num 25), v_stock = 5\<rparr>"

definition shirt :: product where
  "shirt = \<lparr>name = ''Shirt'', price = Num 20, isActive = True, stockQuantity = 5,
            variants = Some [large], p_updatedAt = 0\<rparr>"

definition save10 :: coupon where
  "save10 = \<lparr>code = ''SAVE10'', description = ''Ten percent off'', discountType = ''percentage'',
             discountValue = Num 10, minOrderAmount = Some (Num 0), maxDiscountAmount = None,
             maxUses = Some 1, maxUsesPerUser = None, startDate = None, expiryDate = None,
             applicableCategories = Some [], applicableProducts = Some [],
             c_isActive = True, usedCount = 0, lastUsedAt = None\<rparr>"

definition shop :: db where
  "shop = \<lparr>products = [''p1'' \<mapsto> widget, ''p2'' \<mapsto> shirt], orders = Map.empty,
           coupons = [(''c1'', save10)], couponUsage = []\<rparr>"

definition line :: "string \<Rightarrow> int \<Rightarrow> string option \<Rightarrow> item" where
  "line pid q v = \<lparr>productId = pid, quantity = q, variantId = v, clientPrice = None\<rparr>"

definition request :: "item list \<Rightarrow> order_request" where
  "request its =
     \<lparr>items = its, r_customerEmail = ''ann@example.com'', r_customerName = ''Ann'',
      r_shippingAddress = ''1 Main St'', r_billingAddress = None, r_notes = None,
      r_paymentToken = None, fieldsValid = True, clientTotal = None, couponCode = None\<rparr>"

definition env1 :: env where
  "env1 = \<lparr>now = 1000, newOrderNumber = ''ORD-A'', newOrderId = ''o1''\<rparr>"

definition env2 :: env where
  "env2 = \<lparr>now = 2000, newOrderNumber = ''ORD-B'', newOrderId = ''o2''\<rparr>"

definition ann :: user where
  "ann = \<lparr>u_id = ''ann'', u_email = ''ann@example.com'', u_role = ''customer''\<rparr>"

definition bob :: user where
  "bob = \<lparr>u_id = ''bob'', u_email = ''bob@example.com'', u_role = ''customer''\<rparr>"

definition redeem :: apply_request where
  "redeem = \<lparr>ar_couponId = ''c1'', ar_orderId = ''o1'', ar_discountAmount = 1\<rparr>"

text \<open>The order document that a request for the lines \<open>ois\<close> of the example shop creates.\<close>

definition example_order ::
    "string option \<Rightarrow> order_item list \<Rightarrow> number \<Rightarrow> number \<Rightarrow> number \<Rightarrow> number \<Rightarrow> order" where
  "example_order uid ois sub tx sh tot =
     \<lparr>userId = uid, orderNumber = ''ORD-A'', customerEmail = ''ann@example.com'',
      customerName = ''Ann'', shippingAddress = ''1 Main St'', billingAddress = ''1 Main St'',
      o_items = ois, subtotal = sub, tax = tx, shipping = sh, total = tot,
      status = ''pending'', paymentStatus = ''pending'', paymentToken = None, o_notes = [],
      createdAt = 1000, updatedAt = 1000, cancelledAt = None, cancellationReason = None,
      cancelledBy = None\<rparr>"

text \<open>One widget, ordered by a guest.\<close>

definition widget_order :: order where
  "widget_order =
     example_order None
       [\<lparr>oi_productId = ''p1'', productName = ''Widget'', productPrice = fl (101 / 100),
         oi_quantity = 1, oi_variantId = None, variantName = None,
         oi_subtotal = fl (101 / 100)\<rparr>]
       (fl (101 / 100)) (fl (101 / 1000)) (fl (999 / 100)) (fl (11101 / 1000))"

text \<open>One large shirt, ordered by Ann.\<close>

definition shirt_order :: order where
  "shirt_order =
     example_order (Some ''ann'')
       [\<lparr>oi_productId = ''p2'', productName = ''Shirt'', productPrice = Num 25,
         oi_quantity = 1, oi_variantId = Some ''v1'', variantName = Some ''Large'',
         oi_subtotal = Num 25\<rparr>]
       (Num 25) (Num (5 / 2)) (fl (999 / 100)) (fl (3749 / 100))"

text \<open>The shop after each of these two orders, and with the shirt order already shipped.\<close>

definition shop_after_widget_order :: db where
  "shop_after_widget_order =
     shop\<lparr>products := (products shop)(''p1'' \<mapsto> widget\<lparr>stockQuantity := 0, p_updatedAt := 1000\<rparr>),
          orders := (orders shop)(''o1'' \<mapsto> widget_order)\<rparr>"

definition shop_after_shirt_order :: db where
  "shop_after_shirt_order =
     shop\<lparr>products := (products shop)(''p2'' \<mapsto>
             shirt\<lparr>stockQuantity := 4, variants := Some [large\<lparr>v_stock := 4\<rparr>],
                   p_updatedAt := 1000\<rparr>),
          orders := (orders shop)(''o1'' \<mapsto> shirt_order)\<rparr>"

definition shop_shirt_shipped :: db where
  "shop_shirt_shipped =
     shop_after_shirt_order\<lparr>orders := (orders shop)(''o1'' \<mapsto> shirt_order\<lparr>status := ''shipped''\<rparr>)\<rparr>"

definition shirt_order_cancelled :: order where
  "shirt_order_cancelled =
     shirt_order\<lparr>status := ''cancelled'', cancelledAt := Some 2000,
                 cancellationReason := Some ''Cancelled by customer'',
                 cancelledBy := Some ''ann'', updatedAt := 2000\<rparr>"

text \<open>
  The shop with a second coupon, for free shipping; the shop with the first coupon given
  a limit of zero uses after seven uses; the shop with the first coupon used once, which
  is its limit; a call of \<^verbatim>\<open>POST /validate\<close> for an order of 100.
\<close>

definition freeship :: coupon where
  "freeship = save10\<lparr>code := ''FREESHIP'', description := ''Free shipping'',
                      discountType := ''freeShipping'', discountValue := Num 0\<rparr>"

definition shop_with_coupons :: db where
  "shop_with_coupons = shop\<lparr>coupons := [(''c1'', save10), (''c2'', freeship)]\<rparr>"

definition shop_limit_zero :: db where
  "shop_limit_zero = shop\<lparr>coupons := [(''c1'', save10\<lparr>maxUses := Some 0, usedCount := 7\<rparr>)]\<rparr>"

definition shop_used_up :: db where
  "shop_used_up = shop\<lparr>coupons := [(''c1'', save10\<lparr>usedCount := 1\<rparr>)]\<rparr>"

definition validate_save10 :: validate_request where
  "validate_save10 = \<lparr>vr_code = ''SAVE10'', orderTotal = Num 100, vr_userId = None,
                       categoryId = None, productIds = []\<rparr>"


section \<open>Evaluating numbers\<close>

lemma bitlen_powi:
  assumes "0 < (n::int)"
  shows "(2::rat) powi (bitlen n - 1) \<le> of_int n" and "of_int n < (2::rat) powi bitlen n"
proof -
  from bitlen_bounds[OF assms] have b: "2 ^ nat (bitlen n - 1) \<le> n" "n < 2 ^ nat (bitlen n)"
    by auto
  have ge1: "1 \<le> bitlen n"
    using assms bitlen_eq_zero_iff[of n] bitlen_nonneg[of n] by linarith
  have "(2::rat) powi (bitlen n - 1) = of_int (2 ^ nat (bitlen n - 1))"
    using ge1 by (simp add: power_int_def)
  also have "\<dots> \<le> of_int n"
    using b(1) by (simp only: of_int_le_iff)
  finally show "(2::rat) powi (bitlen n - 1) \<le> of_int n" .
  have "(of_int n :: rat) < of_int (2 ^ nat (bitlen n))"
    using b(2) by (simp only: of_int_less_iff)
  also have "\<dots> = 2 powi bitlen n"
    using ge1 by (simp add: power_int_def)
  finally show "of_int n < (2::rat) powi bitlen n" .
qed

lemma ilog2_bounds:
  assumes "0 < x"
  shows "2 powi ilog2 x \<le> x \<and> x < 2 powi (ilog2 x + 1)"
proof -
  obtain p q where pq: "quotient_of x = (p, q)" by (cases "quotient_of x") auto
  then have q: "0 < q" and x: "x = of_int p / of_int q"
    using quotient_of_denom_pos[of x p q] quotient_of_div[of x p q] by auto
  with assms have p: "0 < p"
    by (simp add: zero_less_divide_iff)
  let ?k = "bitlen p - bitlen q"
  have qr: "(0::rat) < of_int q" using q by simp
  have up: "x < 2 powi (?k + 1)"
  proof -
    have "x * of_int q = of_int p" using x qr by simp
    also have "\<dots> < 2 powi bitlen p" using bitlen_powi(2)[OF p] .
    also have "\<dots> = (2::rat) powi (?k + 1) * 2 powi (bitlen q - 1)"
      by (simp flip: power_int_add)
    also have "\<dots> \<le> 2 powi (?k + 1) * of_int q"
      using bitlen_powi(1)[OF q] by (intro mult_left_mono) auto
    finally show ?thesis using qr by simp
  qed
  have lo: "2 powi (?k - 1) < x"
  proof -
    have "(2::rat) powi (?k - 1) * of_int q < 2 powi (?k - 1) * 2 powi bitlen q"
      using bitlen_powi(2)[OF q] by (intro mult_strict_left_mono) auto
    also have "\<dots> = 2 powi (bitlen p - 1)"
      by (simp flip: power_int_add)
    also have "\<dots> \<le> of_int p" using bitlen_powi(1)[OF p] .
    also have "\<dots> = x * of_int q" using x qr by simp
    finally show ?thesis using qr by simp
  qed
  show ?thesis
  proof (cases "2 powi ?k \<le> x")
    case True
    then have "ilog2 x = ?k" by (simp add: ilog2_def pq)
    with True up show ?thesis by simp
  next
    case False
    then have "ilog2 x = ?k - 1" by (simp add: ilog2_def pq)
    with False lo show ?thesis by simp
  qed
qed

lemma ilog2_unique:
  assumes "2 powi k \<le> x" and "x < 2 powi (k + 1)"
  shows "ilog2 x = k"
proof -
  have "0 < (2::rat) powi k" by simp
  with assms(1) have pos: "0 < x" by linarith
  note b = ilog2_bounds[OF pos]
  have "\<not> ilog2 x < k"
  proof
    assume "ilog2 x < k"
    then have "(2::rat) powi (ilog2 x + 1) \<le> 2 powi k"
      by (intro power_int_increasing) auto
    with b assms(1) show False by linarith
  qed
  moreover have "\<not> k < ilog2 x"
  proof
    assume "k < ilog2 x"
    then have "(2::rat) powi (k + 1) \<le> 2 powi ilog2 x"
      by (intro power_int_increasing) auto
    with b assms(2) show False by linarith
  qed
  ultimately show ?thesis by linarith
qed

text \<open>Evaluating \<open>fl\<close> at a positive rational in the normal range, with the exponent given.\<close>

lemma fl_normal:
  assumes "2 powi (e + 52) \<le> x" and "x < 2 powi (e + 53)" and "- 1074 \<le> e"
  shows "fl x = fl_at True x e"
proof -
  have "ilog2 x = e + 52"
    using assms(1,2) by (intro ilog2_unique) (simp_all add: add.commute add.left_commute)
  moreover have "0 < x"
    using assms(1) zero_less_power_int[of "2::rat" "e + 52"] by linarith
  ultimately show ?thesis using assms(3) by (simp add: fl_def)
qed

lemma floor_rat_numeral: "\<lfloor>numeral a / numeral b :: rat\<rfloor> = numeral a div numeral b"
  using floor_divide_of_int_eq[of "numeral a" "numeral b", where ?'a = rat] by simp

lemmas fl_eval = fl_at_def fl_pack_def round_half_even_def Let_def floor_rat_numeral


text \<open>The doubles of the examples, and the arithmetic of the two example orders.\<close>

lemma fl_101_100: "fl (101 / 100) = Num (4548635623644201 / 4503599627370496)"
  by (simp add: fl_normal[of "- 52"] fl_eval)

lemma fl_1_10: "fl (1 / 10) = Num (3602879701896397 / 36028797018963968)"
  by (simp add: fl_normal[of "- 56"] fl_eval)

lemma fl_999_100: "fl (999 / 100) = Num (5623870034678907 / 562949953421312)"
  by (simp add: fl_normal[of "- 49"] fl_eval)

lemma fl_101_1000: "fl (101 / 1000) = Num (3638908498915361 / 36028797018963968)"
  by (simp add: fl_normal[of "- 56"] fl_eval)

lemma fl_11101_1000: "fl (11101 / 1000) = Num (6249307432929985 / 562949953421312)"
  by (simp add: fl_normal[of "- 49"] fl_eval)

lemma fl_111_10: "fl (111 / 10) = Num (6248744482976563 / 562949953421312)"
  by (simp add: fl_normal[of "- 49"] fl_eval)

lemma fl_3749_100: "fl (3749 / 100) = Num (5276248438441247 / 140737488355328)"
  by (simp add: fl_normal[of "- 47"] fl_eval)

lemma fl_1: "fl 1 = Num 1"
  by (simp add: fl_normal[of "- 52"] fl_eval)

lemma fl_2: "fl 2 = Num 2"
  by (simp add: fl_normal[of "- 51"] fl_eval)

lemma fl_20: "fl 20 = Num 20"
  by (simp add: fl_normal[of "- 48"] fl_eval)

lemma fl_25: "fl 25 = Num 25"
  by (simp add: fl_normal[of "- 48"] fl_eval)

lemma fl_55_2: "fl (55 / 2) = Num (55 / 2)"
  by (simp add: fl_normal[of "- 48"] fl_eval)

lemma of_quantity_1: "of_quantity 1 = Num 1"
  by (simp add: of_quantity_def fl_1)

lemma widget_arith:
  "fmul (fl (101 / 100)) (Num 1) = fl (101 / 100)"
  "fadd (Num 0) (fl (101 / 100)) = fl (101 / 100)"
  "fmul (fl (101 / 100)) (fl (1 / 10)) = fl (101 / 1000)"
  "js_less (Num 50) (fl (101 / 100)) = False"
  "fadd (fadd (fl (101 / 100)) (fl (101 / 1000))) (fl (999 / 100)) = fl (11101 / 1000)"
      apply (simp add: fl_101_100 fl_normal[of "- 52"] fl_eval)
     apply (simp add: fl_101_100 fl_normal[of "- 52"] fl_eval)
    apply (simp add: fl_101_100 fl_1_10 fl_101_1000 fl_normal[of "- 56"] fl_eval)
   apply (simp add: fl_101_100)
  apply (simp add: fl_101_100 fl_101_1000 fl_999_100 fl_11101_1000 fl_normal[of "- 52"] fl_normal[of "- 49"] fl_eval)
  done

lemma shirt_arith:
  "fmul (Num 25) (Num 1) = Num 25"
  "fadd (Num 0) (Num 25) = Num 25"
  "fmul (Num 25) (fl (1 / 10)) = Num (5 / 2)"
  "js_less (Num 50) (Num 25) = False"
  "fadd (Num (55 / 2)) (fl (999 / 100)) = fl (3749 / 100)"
      apply (simp add: fl_25)
     apply (simp add: fl_25)
    apply (simp add: fl_1_10 fl_normal[of "- 51"] fl_eval)
   apply simp
  apply (simp add: fl_999_100 fl_3749_100 fl_normal[of "- 48"] fl_normal[of "- 47"] fl_eval)
  done


section \<open>Properties of the transaction and of the order loop\<close>

lemmas example_defs = widget_def large_def shirt_def save10_def shop_def line_def request_def
  env1_def env2_def ann_def bob_def redeem_def example_order_def widget_order_def shirt_order_def
  widget_arith shirt_arith of_quantity_1 fl_20 fl_25 fl_55_2

lemmas order_defs = placeOrder_def validationResult_def runTransaction_def placeOrder_tx_def
  processItem_def tx_get_def selected_variant_def variant_writes_def truthy_str_def truthy_num_def
  Let_def

lemma commit_append:
  "commit d (ws @ ws') = (case commit d ws of None \<Rightarrow> None | Some d' \<Rightarrow> commit d' ws')"
  by (induction ws arbitrary: d) (auto split: option.splits)

lemma runTransaction_failed: "runTransaction d r = (Inl m, d') \<Longrightarrow> d' = d"
  by (auto simp: runTransaction_def split: sum.splits prod.splits option.splits)

text \<open>What a successful iteration has checked and what it leaves in the loop state.\<close>

lemma processItem_success:
  assumes "processItem rule d t (sub, ois, ws) it = Inr st'"
  shows "\<exists>p oi pr. products d (productId it) = Some p \<and> isActive p \<and>
           quantity it \<le> stockQuantity p \<and>
           oi_productId oi = productId it \<and> oi_quantity oi = quantity it \<and>
           st' = (fadd sub pr, ois @ [oi],
                  ws @ UpdateStock (productId it) (- quantity it) t # variant_writes it p)"
  using assms
  by (auto simp: processItem_def tx_get_def Let_def
      split: if_splits option.splits sum.splits)

lemma processItems_checked:
  assumes "processItems rule d t st its = Inr st'"
  shows "\<forall>it\<in>set its. \<exists>p. products d (productId it) = Some p \<and> quantity it \<le> stockQuantity p"
  using assms
proof (induction its arbitrary: st)
  case Nil
  then show ?case by simp
next
  case (Cons a its)
  then obtain st1 where a: "processItem rule d t st a = Inr st1"
    and rest: "processItems rule d t st1 its = Inr st'"
    by (auto split: sum.splits)
  obtain sub ois ws where "st = (sub, ois, ws)" by (cases st) auto
  with a processItem_success
  have "\<exists>p. products d (productId a) = Some p \<and> quantity a \<le> stockQuantity p"
    by blast
  with Cons.IH[OF rest] show ?case by simp
qed

text \<open>
  Under the rule of the SDK the loop cannot read a second product: the first iteration
  has buffered a write.
\<close>

lemma processItems_after_write:
  assumes "ws \<noteq> []" and "processItems ReadsBeforeWrites d t (sub, ois, ws) its = Inr st'"
  shows "its = []"
  using assms by (cases its) (auto simp: processItem_def tx_get_def)

lemma processItems_one_line:
  assumes "processItems ReadsBeforeWrites d t (sub, ois, []) its = Inr st'" and "its \<noteq> []"
  shows "\<exists>it. its = [it] \<and> processItem ReadsBeforeWrites d t (sub, ois, []) it = Inr st'"
proof -
  from assms(2) obtain it rest where its: "its = it # rest" by (cases its) auto
  with assms(1) obtain st1 where a: "processItem ReadsBeforeWrites d t (sub, ois, []) it = Inr st1"
    and r: "processItems ReadsBeforeWrites d t st1 rest = Inr st'"
    by (auto split: sum.splits)
  from processItem_success[OF a] obtain s1 o1 w1 where st1: "st1 = (s1, o1, w1)" "w1 \<noteq> []"
    by auto
  with r have "rest = []" using processItems_after_write by blast
  with its a r show ?thesis by simp
qed

lemma variant_writes_cases:
  "variant_writes it p = [] \<or> (\<exists>vs. variant_writes it p = [UpdateVariants (productId it) vs])"
  by (auto simp: variant_writes_def split: option.splits)

text \<open>The committed effect of a one-line order on the stock counter of any product.\<close>

lemma commit_one_line:
  assumes "products d (productId it) = Some p"
  shows "\<exists>d'. commit d (UpdateStock (productId it) (- quantity it) t # variant_writes it p
                          @ [SetOrder oid ord]) = Some d' \<and>
              (\<forall>pid q. products d pid = Some q \<longrightarrow>
                 (\<exists>q'. products d' pid = Some q' \<and>
                    stockQuantity q' =
                      stockQuantity q - (if pid = productId it then quantity it else 0)))"
  using assms variant_writes_cases[of it p]
  by (auto simp: commit_append)

lemma placeOrder_success_tx:
  assumes "fst (placeOrder rule e u d r) = Inr (c, oid, ord)"
  shows "\<exists>ws. placeOrder_tx rule e u d r = Inr ((oid, ord), ws) \<and> c = 201 \<and> validationResult r"
  using assms
  by (auto simp: placeOrder_def runTransaction_def
      split: if_splits sum.splits prod.splits option.splits)

lemma placeOrder_success_checked:
  assumes "fst (placeOrder rule e u d r) = Inr (c, oid, ord)"
  shows "\<forall>it\<in>set (items r). \<exists>q. products d (productId it) = Some q \<and> quantity it \<le> stockQuantity q"
proof -
  from placeOrder_success_tx[OF assms] obtain ws where
    "placeOrder_tx rule e u d r = Inr ((oid, ord), ws)" by blast
  then obtain st where "processItems rule d (now e) (Num 0, [], []) (items r) = Inr st"
    by (auto simp: placeOrder_tx_def split: sum.splits)
  then show ?thesis by (rule processItems_checked)
qed

text \<open>
  Under the rule of the SDK a created order has exactly one line; its committed effect.
\<close>

lemma commit_one_line_order:
  assumes "products d (productId it) = Some p"
  shows "\<exists>d'. commit d (UpdateStock (productId it) (- quantity it) t # variant_writes it p
                          @ [SetOrder oid ord]) = Some d' \<and> orders d' oid = Some ord"
  using assms variant_writes_cases[of it p]
  by (auto simp: commit_append)

lemma placeOrder_one_line_result:
  assumes "fst (placeOrder ReadsBeforeWrites e u d r) = Inr (c, oid, ord)"
  shows "\<exists>it pi oi. items r = [it] \<and> products d (productId it) = Some pi \<and>
           o_items ord = [oi] \<and> oi_productId oi = productId it \<and> oi_quantity oi = quantity it \<and>
           status ord = ''pending'' \<and>
           orders (snd (placeOrder ReadsBeforeWrites e u d r)) oid = Some ord \<and>
           (\<forall>pid q. products d pid = Some q \<longrightarrow>
                 (\<exists>q'. products (snd (placeOrder ReadsBeforeWrites e u d r)) pid = Some q' \<and>
                    stockQuantity q' =
                      stockQuantity q - (if pid = productId it then quantity it else 0)))"
proof -
  from placeOrder_success_tx[OF assms] obtain ws0 where
    tx: "placeOrder_tx ReadsBeforeWrites e u d r = Inr ((oid, ord), ws0)" and v: "validationResult r"
    by blast
  then have ne: "items r \<noteq> []" by (auto simp: validationResult_def)
  from tx obtain sub ois ws where
    loop: "processItems ReadsBeforeWrites d (now e) (Num 0, [], []) (items r) = Inr (sub, ois, ws)"
    by (auto simp: placeOrder_tx_def split: sum.splits prod.splits)
  from processItems_one_line[OF loop ne] obtain it where
    it: "items r = [it]"
        "processItem ReadsBeforeWrites d (now e) (Num 0, [], []) it = Inr (sub, ois, ws)"
    by blast
  from processItem_success[OF it(2)] obtain pi oi pr where
    pi: "products d (productId it) = Some pi"
      "oi_productId oi = productId it" "oi_quantity oi = quantity it"
      "ois = [oi]"
      "ws = UpdateStock (productId it) (- quantity it) (now e) # variant_writes it pi"
    by auto
  from tx loop have
    res: "oid = newOrderId e" "ws0 = ws @ [SetOrder (newOrderId e) ord]" "o_items ord = ois"
      "status ord = ''pending''"
    by (auto simp: placeOrder_tx_def Let_def)
  from commit_one_line[OF pi(1), of "now e" "newOrderId e" ord]
    commit_one_line_order[OF pi(1), of "now e" "newOrderId e" ord]
  obtain d' where
    d': "commit d (ws @ [SetOrder (newOrderId e) ord]) = Some d'"
      "orders d' (newOrderId e) = Some ord"
    and eff: "\<forall>pid q. products d pid = Some q \<longrightarrow>
                 (\<exists>q'. products d' pid = Some q' \<and>
                    stockQuantity q' =
                      stockQuantity q - (if pid = productId it then quantity it else 0))"
    using pi(5) by auto
  have po: "placeOrder ReadsBeforeWrites e u d r = (Inr (201, newOrderId e, ord), d')"
    using v tx res d' by (simp add: placeOrder_def runTransaction_def)
  with it(1) pi res d' eff show ?thesis by auto
qed

text \<open>The writes of one line, for the product document that the loop read.\<close>

lemma processItem_success_writes:
  assumes "processItem rule d t (sub, ois, ws) it = Inr (sub', ois', ws')"
  shows "\<exists>p oi. products d (productId it) = Some p \<and> quantity it \<le> stockQuantity p \<and>
           oi_productId oi = productId it \<and> oi_quantity oi = quantity it \<and>
           ois' = ois @ [oi] \<and>
           ws' = ws @ UpdateStock (productId it) (- quantity it) t # variant_writes it p"
  using processItem_success[OF assms] by auto

lemma processItems_success_writes:
  assumes "processItems rule d t (sub, ois, ws) its = Inr (sub', ois', ws')"
  shows "(\<exists>new. ois' = ois @ new \<and>
                 map (\<lambda>oi. (oi_productId oi, oi_quantity oi)) new
                   = map (\<lambda>it. (productId it, quantity it)) its) \<and>
         ws' = ws @ concat (map (\<lambda>it. UpdateStock (productId it) (- quantity it) t
                                  # variant_writes it (the (products d (productId it)))) its)"
  using assms
proof (induction its arbitrary: sub ois ws)
  case Nil
  then show ?case by simp
next
  case (Cons a its)
  from Cons.prems obtain st1 where a: "processItem rule d t (sub, ois, ws) a = Inr st1"
    and rest: "processItems rule d t st1 its = Inr (sub', ois', ws')"
    by (auto split: sum.splits)
  obtain s1 o1 w1 where st1: "st1 = (s1, o1, w1)" by (cases st1) auto
  from processItem_success_writes[OF a[unfolded st1]] obtain p oi where
    h: "products d (productId a) = Some p"
       "oi_productId oi = productId a" "oi_quantity oi = quantity a"
       "o1 = ois @ [oi]"
       "w1 = ws @ UpdateStock (productId a) (- quantity a) t # variant_writes a p"
    by blast
  from Cons.IH[OF rest[unfolded st1]] obtain new where
    ih: "ois' = o1 @ new"
        "map (\<lambda>oi. (oi_productId oi, oi_quantity oi)) new
           = map (\<lambda>it. (productId it, quantity it)) its"
        "ws' = w1 @ concat (map (\<lambda>it. UpdateStock (productId it) (- quantity it) t
                                  # variant_writes it (the (products d (productId it)))) its)"
    by blast
  have "ois' = ois @ (oi # new) \<and>
           map (\<lambda>oi. (oi_productId oi, oi_quantity oi)) (oi # new)
             = map (\<lambda>it. (productId it, quantity it)) (a # its)"
    using h(2,3,4) ih(1,2) by simp
  moreover have "ws' = ws @ concat (map (\<lambda>it. UpdateStock (productId it) (- quantity it) t
                        # variant_writes it (the (products d (productId it)))) (a # its))"
    using h(1,5) ih(3) by simp
  ultimately show ?case by blast
qed

text \<open>
  Committing the writes of a list of lines: every product document stays, and its stock
  counter goes down by the quantities of the lines on it.
\<close>

lemma commit_line_writes:
  assumes "\<forall>it\<in>set its. products d (productId it) \<noteq> None"
  shows "\<exists>d'. commit d (concat (map (\<lambda>it. UpdateStock (productId it) (- quantity it) t
                                        # variant_writes it (pf it)) its)) = Some d' \<and>
              orders d' = orders d \<and> coupons d' = coupons d \<and> couponUsage d' = couponUsage d \<and>
              (\<forall>pid. products d pid = None \<longrightarrow> products d' pid = None) \<and>
              (\<forall>pid q. products d pid = Some q \<longrightarrow>
                 (\<exists>q'. products d' pid = Some q' \<and>
                    stockQuantity q' = stockQuantity q
                      - sum_list (map quantity (filter (\<lambda>it. productId it = pid) its))))"
  using assms
proof (induction its arbitrary: d)
  case Nil
  then show ?case by simp
next
  case (Cons a its)
  from Cons.prems obtain p where p: "products d (productId a) = Some p" by auto
  let ?d0 = "d\<lparr>products := (products d)(productId a \<mapsto>
                 p\<lparr>stockQuantity := stockQuantity p + - quantity a, p_updatedAt := t\<rparr>)\<rparr>"
  obtain d1 where d1: "commit d (UpdateStock (productId a) (- quantity a) t # variant_writes a (pf a)) = Some d1"
    "orders d1 = orders d" "coupons d1 = coupons d" "couponUsage d1 = couponUsage d"
    "\<forall>pid. products d pid = None \<longrightarrow> products d1 pid = None"
    "\<forall>pid q. products d pid = Some q \<longrightarrow>
        (\<exists>q'. products d1 pid = Some q' \<and>
               stockQuantity q' = stockQuantity q - (if pid = productId a then quantity a else 0))"
    using p variant_writes_cases[of a "pf a"] by auto
  from Cons.prems d1(6) have "\<forall>it\<in>set its. products d1 (productId it) \<noteq> None"
    by fastforce
  from Cons.IH[OF this] obtain d' where
    d': "commit d1 (concat (map (\<lambda>it. UpdateStock (productId it) (- quantity it) t
                                        # variant_writes it (pf it)) its)) = Some d'"
      "orders d' = orders d1" "coupons d' = coupons d1" "couponUsage d' = couponUsage d1"
      "\<forall>pid. products d1 pid = None \<longrightarrow> products d' pid = None"
      "\<forall>pid q. products d1 pid = Some q \<longrightarrow>
                 (\<exists>q'. products d' pid = Some q' \<and>
                    stockQuantity q' = stockQuantity q
                      - sum_list (map quantity (filter (\<lambda>it. productId it = pid) its)))"
    by blast
  have c: "commit d (concat (map (\<lambda>it. UpdateStock (productId it) (- quantity it) t
                                        # variant_writes it (pf it)) (a # its))) = Some d'"
    using d1(1) d'(1) commit_append[of d "UpdateStock (productId a) (- quantity a) t # variant_writes a (pf a)"]
    by simp
  have s: "\<forall>pid q. products d pid = Some q \<longrightarrow>
                 (\<exists>q'. products d' pid = Some q' \<and>
                    stockQuantity q' = stockQuantity q
                      - sum_list (map quantity (filter (\<lambda>it. productId it = pid) (a # its))))"
  proof (intro allI impI)
    fix pid q assume "products d pid = Some q"
    with d1(6) obtain q1 where q1: "products d1 pid = Some q1"
      "stockQuantity q1 = stockQuantity q - (if pid = productId a then quantity a else 0)"
      by blast
    with d'(6) obtain q' where "products d' pid = Some q'"
      "stockQuantity q' = stockQuantity q1
                      - sum_list (map quantity (filter (\<lambda>it. productId it = pid) its))"
      by blast
    with q1 show "\<exists>q'. products d' pid = Some q' \<and>
                    stockQuantity q' = stockQuantity q
                      - sum_list (map quantity (filter (\<lambda>it. productId it = pid) (a # its)))"
      by auto
  qed
  from c s d1 d' show ?case by auto
qed

lemma decrement_of_lines:
  assumes "map (\<lambda>oi. (oi_productId oi, oi_quantity oi)) (o_items ord)
             = map (\<lambda>it. (productId it, quantity it)) its"
  shows "decrement_of pid (Inr (c, oid, ord))
           = sum_list (map quantity (filter (\<lambda>it. productId it = pid) its))"
proof -
  have "sum_list (map oi_quantity (filter (\<lambda>oi. oi_productId oi = pid) ois))
          = sum_list (map quantity (filter (\<lambda>it. productId it = pid) its))"
    if "map (\<lambda>oi. (oi_productId oi, oi_quantity oi)) ois
             = map (\<lambda>it. (productId it, quantity it)) its" for ois
    using that by (induction ois arbitrary: its) auto
  with assms show ?thesis by (simp add: decrement_of_def)
qed

lemma distinct_lines_sum:
  assumes "distinct (map productId its)"
    and "\<forall>it\<in>set its. productId it = pid \<longrightarrow> quantity it \<le> s" and "0 \<le> s"
  shows "sum_list (map quantity (filter (\<lambda>it. productId it = pid) its)) \<le> (s::int)"
  using assms
proof (induction its)
  case Nil
  then show ?case by simp
next
  case (Cons a its)
  show ?case
  proof (cases "productId a = pid")
    case True
    from Cons.prems(1) have "productId a \<notin> productId ` set its"
      by simp
    then have "\<forall>it\<in>set its. productId it \<noteq> productId a"
      by (metis imageI)
    with True have "\<forall>it\<in>set its. productId it \<noteq> pid"
      by simp
    then have "filter (\<lambda>it. productId it = pid) its = []"
      by (simp add: filter_empty_conv)
    with True Cons.prems(2) show ?thesis by simp
  next
    case False
    with Cons show ?thesis by simp
  qed
qed

lemma placeOrder_failed_unchanged:
  "fst (placeOrder rule e u d r) = Inl f \<Longrightarrow> snd (placeOrder rule e u d r) = d"
  by (auto simp: placeOrder_def split: if_splits sum.splits prod.splits
      dest: runTransaction_failed)

text \<open>A successful call, under either read rule.\<close>

lemma placeOrder_success_effect:
  assumes "fst (placeOrder rule e u d r) = Inr (c, oid, ord)"
  shows "(\<forall>pid q. products d pid = Some q \<longrightarrow>
            (\<exists>q'. products (snd (placeOrder rule e u d r)) pid = Some q' \<and>
               stockQuantity q' = stockQuantity q - decrement_of pid (Inr (c, oid, ord)))) \<and>
         (\<forall>pid. decrement_of pid (Inr (c, oid, ord))
                  = sum_list (map quantity (filter (\<lambda>it. productId it = pid) (items r))))"
proof -
  from placeOrder_success_tx[OF assms] obtain ws0 where
    tx: "placeOrder_tx rule e u d r = Inr ((oid, ord), ws0)" and v: "validationResult r"
    by blast
  from tx obtain sub ois ws where
    loop: "processItems rule d (now e) (Num 0, [], []) (items r) = Inr (sub, ois, ws)"
    by (auto simp: placeOrder_tx_def split: sum.splits prod.splits)
  from tx loop have
    res: "oid = newOrderId e" "ws0 = ws @ [SetOrder (newOrderId e) ord]" "o_items ord = ois"
    by (auto simp: placeOrder_tx_def Let_def)
  let ?lw = "\<lambda>it. UpdateStock (productId it) (- quantity it) (now e)
                    # variant_writes it (the (products d (productId it)))"
  from processItems_success_writes[OF loop] have
    ois: "map (\<lambda>oi. (oi_productId oi, oi_quantity oi)) ois
            = map (\<lambda>it. (productId it, quantity it)) (items r)"
    and ws: "ws = concat (map ?lw (items r))"
    by auto
  from processItems_checked[OF loop]
  have ex: "\<forall>it\<in>set (items r). products d (productId it) \<noteq> None"
    by auto
  from commit_line_writes[OF ex, of "now e" "\<lambda>it. the (products d (productId it))"]
  obtain d1 where d1: "commit d ws = Some d1"
    "\<forall>pid q. products d pid = Some q \<longrightarrow>
                 (\<exists>q'. products d1 pid = Some q' \<and>
                    stockQuantity q' = stockQuantity q
                      - sum_list (map quantity (filter (\<lambda>it. productId it = pid) (items r))))"
    using ws by blast
  have po: "placeOrder rule e u d r =
              (Inr (201, newOrderId e, ord), d1\<lparr>orders := (orders d1)(newOrderId e \<mapsto> ord)\<rparr>)"
    using v tx res d1(1) by (simp add: placeOrder_def runTransaction_def commit_append)
  have dec: "\<forall>pid. decrement_of pid (Inr (c, oid, ord))
                  = sum_list (map quantity (filter (\<lambda>it. productId it = pid) (items r)))"
    using decrement_of_lines[of ord "items r"] ois res(3) by simp
  with po d1(2) show ?thesis by simp
qed

lemma placeOrder_step:
  assumes "products d pid = Some p" and "0 \<le> stockQuantity p"
    and "rule = ReadsBeforeWrites \<or> distinct (map productId (items r))"
  shows "\<exists>p'. products (snd (placeOrder rule e u d r)) pid = Some p' \<and>
           stockQuantity p' =
             stockQuantity p - decrement_of pid (fst (placeOrder rule e u d r)) \<and>
           0 \<le> stockQuantity p'"
proof (cases "fst (placeOrder rule e u d r)")
  case (Inl f)
  with placeOrder_failed_unchanged[OF Inl] assms show ?thesis
    by (simp add: decrement_of_def)
next
  case (Inr res)
  obtain c oid ord where res: "res = (c, oid, ord)" by (cases res) auto
  note ok = Inr[unfolded res]
  from placeOrder_success_effect[OF ok] assms(1) obtain p' where
    p': "products (snd (placeOrder rule e u d r)) pid = Some p'"
        "stockQuantity p' = stockQuantity p - decrement_of pid (Inr (c, oid, ord))"
    and dec: "decrement_of pid (Inr (c, oid, ord))
                  = sum_list (map quantity (filter (\<lambda>it. productId it = pid) (items r)))"
    by blast
  have dist: "distinct (map productId (items r))"
  proof (cases "rule = ReadsBeforeWrites")
    case True
    from placeOrder_one_line_result[OF ok[unfolded True]] show ?thesis by auto
  next
    case False
    with assms(3) show ?thesis by simp
  qed
  from placeOrder_success_checked[OF ok] assms(1)
  have "\<forall>it\<in>set (items r). productId it = pid \<longrightarrow> quantity it \<le> stockQuantity p"
    by auto
  from distinct_lines_sum[OF dist this assms(2)] dec
  have "decrement_of pid (Inr (c, oid, ord)) \<le> stockQuantity p" by simp
  with p' ok show ?thesis by simp
qed

lemma placeOrders_stock:
  assumes "products d pid = Some p" and "0 \<le> stockQuantity p"
    and "rule = ReadsBeforeWrites \<or>
         (\<forall>call\<in>set calls. distinct (map productId (items (snd (snd call)))))"
  shows "\<exists>p'. products (snd (placeOrders rule d calls)) pid = Some p' \<and>
           0 \<le> stockQuantity p' \<and>
           stockQuantity p' = stockQuantity p
              - sum_list (map (decrement_of pid) (fst (placeOrders rule d calls)))"
  using assms
proof (induction calls arbitrary: d p)
  case Nil
  then show ?case by simp
next
  case (Cons call calls)
  obtain e u r where c: "call = (e, u, r)" by (cases call) auto
  obtain res d1 where s1: "placeOrder rule e u d r = (res, d1)"
    by (cases "placeOrder rule e u d r") auto
  from Cons.prems(3) c have r: "rule = ReadsBeforeWrites \<or> distinct (map productId (items r))"
    by auto
  from Cons.prems(3) have rest: "rule = ReadsBeforeWrites \<or>
         (\<forall>call\<in>set calls. distinct (map productId (items (snd (snd call)))))"
    by auto
  from placeOrder_step[OF Cons.prems(1,2) r, of e u] s1 obtain p1 where
    p1: "products d1 pid = Some p1" "stockQuantity p1 = stockQuantity p - decrement_of pid res"
        "0 \<le> stockQuantity p1"
    by auto
  from Cons.IH[OF p1(1) p1(3) rest] obtain p' where
    p': "products (snd (placeOrders rule d1 calls)) pid = Some p'"
        "0 \<le> stockQuantity p'"
        "stockQuantity p' = stockQuantity p1
              - sum_list (map (decrement_of pid) (fst (placeOrders rule d1 calls)))"
    by blast
  show ?case using c s1 p1 p'
    by (auto split: prod.splits)
qed

text \<open>The example requests, run.\<close>

lemma widget_order_placed:
  "placeOrder ReadsBeforeWrites env1 None shop (request [line ''p1'' 1 None]) =
     (Inr (201, ''o1'', widget_order), shop_after_widget_order)"
  by (simp add: order_defs example_defs shop_after_widget_order_def)

lemma widget_order_refused:
  "placeOrder ReadsBeforeWrites env2 None shop_after_widget_order (request [line ''p1'' 1 None]) =
     (Inl \<lparr>status_code = 500, error = ''ServerError'',
           message = ''Insufficient stock for product Widget''\<rparr>,
      shop_after_widget_order)"
  by (simp add: order_defs example_defs shop_after_widget_order_def)

lemma shirt_order_placed:
  "placeOrder ReadsBeforeWrites env1 (Some ann) shop (request [line ''p2'' 1 (Some ''v1'')]) =
     (Inr (201, ''o1'', shirt_order), shop_after_shirt_order)"
  by (simp add: order_defs example_defs shop_after_shirt_order_def)

section \<open>The stock counter never goes below zero\<close>

text \<open>
  C1. An order is created, and stock decremented, only if every line of the request asks
  for at most the \<^verbatim>\<open>stockQuantity\<close> that the transaction read for its product. With
  the read rule of the SDK, for any sequence of calls of \<^verbatim>\<open>POST /\<close> on a database in
  which a product has the stock \<open>S \<ge> 0\<close>, the stock after the calls is \<open>S\<close> minus the sum
  of the decrements of the successful calls, that sum is at most \<open>S\<close>, and the stock is
  not negative. As the statement holds for every sequence, it holds after every prefix
  of one. Under the lenient read rule the same is proved for the sequences in which no
  request lists a product twice.
\<close>

theorem placeOrder_stock_never_negative:
  "(fst (placeOrder rule e u d r) = Inr (c, oid, ord) \<longrightarrow>
      (\<forall>it\<in>set (items r). \<exists>q. products d (productId it) = Some q \<and>
                                quantity it \<le> stockQuantity q)) \<and>
   (products d pid = Some p \<and> 0 \<le> stockQuantity p \<and>
    (rule = ReadsBeforeWrites \<or>
     (\<forall>call\<in>set calls. distinct (map productId (items (snd (snd call))))))
    \<longrightarrow>
      (\<exists>p'. products (snd (placeOrders rule d calls)) pid = Some p' \<and>
            0 \<le> stockQuantity p' \<and>
            stockQuantity p' = stockQuantity p
               - sum_list (map (decrement_of pid) (fst (placeOrders rule d calls))) \<and>
            sum_list (map (decrement_of pid) (fst (placeOrders rule d calls)))
               \<le> stockQuantity p))"
proof (intro conjI impI)
  assume "fst (placeOrder rule e u d r) = Inr (c, oid, ord)"
  then show "\<forall>it\<in>set (items r). \<exists>q. products d (productId it) = Some q \<and>
                                     quantity it \<le> stockQuantity q"
    by (rule placeOrder_success_checked)
next
  assume "products d pid = Some p \<and> 0 \<le> stockQuantity p \<and>
    (rule = ReadsBeforeWrites \<or>
     (\<forall>call\<in>set calls. distinct (map productId (items (snd (snd call))))))"
  then obtain p' where
    "products (snd (placeOrders rule d calls)) pid = Some p'"
    "0 \<le> stockQuantity p'"
    "stockQuantity p' = stockQuantity p
       - sum_list (map (decrement_of pid) (fst (placeOrders rule d calls)))"
    using placeOrders_stock[of d pid p rule calls] by blast
  then show "\<exists>p'. products (snd (placeOrders rule d calls)) pid = Some p' \<and>
            0 \<le> stockQuantity p' \<and>
            stockQuantity p' = stockQuantity p
               - sum_list (map (decrement_of pid) (fst (placeOrders rule d calls))) \<and>
            sum_list (map (decrement_of pid) (fst (placeOrders rule d calls)))
               \<le> stockQuantity p"
    by (intro exI[of _ p']) simp
qed

theorem placeOrder_stock_never_negative_witness:
  "fst (placeOrder ReadsBeforeWrites env1 None shop (request [line ''p1'' 1 None]))
     = Inr (201, ''o1'', widget_order) \<and>
   products shop ''p1'' = Some widget \<and>
   quantity (line ''p1'' 1 None) \<le> stockQuantity widget \<and>
   0 \<le> stockQuantity widget \<and>
   fst (placeOrders ReadsBeforeWrites shop
          [(env1, None, request [line ''p1'' 1 None]), (env2, None, request [line ''p1'' 1 None])])
     = [Inr (201, ''o1'', widget_order),
        Inl \<lparr>status_code = 500, error = ''ServerError'',
              message = ''Insufficient stock for product Widget''\<rparr>] \<and>
   products (snd (placeOrders ReadsBeforeWrites shop
          [(env1, None, request [line ''p1'' 1 None]), (env2, None, request [line ''p1'' 1 None])]))
      ''p1''
     = Some (widget\<lparr>stockQuantity := 0, p_updatedAt := 1000\<rparr>) \<and>
   sum_list (map (decrement_of ''p1'') (fst (placeOrders ReadsBeforeWrites shop
          [(env1, None, request [line ''p1'' 1 None]), (env2, None, request [line ''p1'' 1 None])])))
     = 1 \<and>
   distinct (map productId (items (request [line ''p1'' 1 None, line ''p2'' 2 None]))) \<and>
   products (snd (placeOrders ReadsFromSnapshot shop
          [(env1, None, request [line ''p1'' 1 None, line ''p2'' 2 None])])) ''p1''
     = Some (widget\<lparr>stockQuantity := 0, p_updatedAt := 1000\<rparr>)"
proof -
  let ?calls = "[(env1, None, request [line ''p1'' 1 None]),
                 (env2, None, request [line ''p1'' 1 None])]"
  let ?two = "[(env1, None, request [line ''p1'' 1 None, line ''p2'' 2 None])]"
  have placed: "fst (placeOrder ReadsBeforeWrites env1 None shop (request [line ''p1'' 1 None]))
                  = Inr (201, ''o1'', widget_order)"
    by (simp add: widget_order_placed)
  have stock: "products shop ''p1'' = Some widget \<and> 0 \<le> stockQuantity widget"
    by (simp add: shop_def widget_def)
  have run: "placeOrders ReadsBeforeWrites shop ?calls =
      ([Inr (201, ''o1'', widget_order),
        Inl \<lparr>status_code = 500, error = ''ServerError'',
              message = ''Insufficient stock for product Widget''\<rparr>],
       shop_after_widget_order)"
    by (simp add: widget_order_placed widget_order_refused)
  have dec: "sum_list (map (decrement_of ''p1'') (fst (placeOrders ReadsBeforeWrites shop ?calls))) = 1"
    unfolding run by (simp add: decrement_of_def widget_order_def example_order_def)
  have line: "quantity (line ''p1'' 1 None) \<le> stockQuantity widget"
    by (simp add: line_def widget_def)
  from placeOrder_stock_never_negative
          [of ReadsBeforeWrites env1 None shop "request [line ''p1'' 1 None]" 201 "''o1''"
              widget_order "''p1''" widget ?calls] placed stock
  have "\<exists>p'. products (snd (placeOrders ReadsBeforeWrites shop ?calls)) ''p1'' = Some p' \<and>
            0 \<le> stockQuantity p' \<and>
            stockQuantity p' = stockQuantity widget
               - sum_list (map (decrement_of ''p1'') (fst (placeOrders ReadsBeforeWrites shop ?calls)))"
    by blast
  then have after: "products (snd (placeOrders ReadsBeforeWrites shop ?calls)) ''p1''
               = Some (widget\<lparr>stockQuantity := 0, p_updatedAt := 1000\<rparr>)"
    unfolding run by (simp add: shop_after_widget_order_def)
  have dist: "distinct (map productId (items (request [line ''p1'' 1 None, line ''p2'' 2 None])))"
    by (simp add: request_def line_def)
  then have "\<forall>call\<in>set ?two. distinct (map productId (items (snd (snd call))))"
    by simp
  with placeOrder_stock_never_negative
          [of ReadsFromSnapshot env1 None shop "request [line ''p1'' 1 None]" 201 "''o1''"
              widget_order "''p1''" widget ?two] stock
  have "\<exists>p'. products (snd (placeOrders ReadsFromSnapshot shop ?two)) ''p1'' = Some p' \<and>
            0 \<le> stockQuantity p'"
    by blast
  then have two: "products (snd (placeOrders ReadsFromSnapshot shop ?two)) ''p1''
               = Some (widget\<lparr>stockQuantity := 0, p_updatedAt := 1000\<rparr>)"
    by (simp add: order_defs example_defs)
  from placed stock line dec after dist two show ?thesis unfolding run by simp
qed

text \<open>
  The read rule carries the second half of this result. Were a \<^verbatim>\<open>get\<close> after a
  buffered write answered from the state the transaction started in, two lines on the same
  product would each pass the check against the same stock and both decrements would be
  committed: three shirts twice from a stock of five would leave the counter at -1.
\<close>

lemma snapshot_reads_would_oversell:
  "products (snd (placeOrder ReadsFromSnapshot env1 None shop
                    (request [line ''p2'' 3 None, line ''p2'' 3 None]))) ''p2''
     = Some (shirt\<lparr>stockQuantity := - 1, p_updatedAt := 1000\<rparr>)"
  by (simp add: order_defs example_defs)

section \<open>A failed order leaves no trace\<close>

text \<open>
  C2. Whenever \<^verbatim>\<open>POST /\<close> answers with an error (invalid body, product not found,
  product inactive, insufficient stock on any line, a refused read), the database after
  the call is the database before it: no stock counter and no variant stock has changed,
  no coupon usage was recorded and no order document was created.
\<close>

theorem placeOrder_failure_no_effect:
  assumes "fst (placeOrder rule e u d r) = Inl f"
  shows "snd (placeOrder rule e u d r) = d"
proof (cases "validationResult r")
  case False
  then show ?thesis by (simp add: placeOrder_def)
next
  case True
  obtain res d' where run: "runTransaction d (placeOrder_tx rule e u d r) = (res, d')"
    by (cases "runTransaction d (placeOrder_tx rule e u d r)") auto
  with True assms obtain m where thrown: "res = Inl m"
    by (cases res) (auto simp: placeOrder_def split: prod.splits)
  with run have "d' = d"
    by (auto dest: runTransaction_failed)
  with True run thrown show ?thesis
    by (simp add: placeOrder_def)
qed

theorem placeOrder_failure_no_effect_witness:
  "fst (placeOrder ReadsBeforeWrites env1 None shop
          (request [line ''p1'' 2 None, line ''p2'' 1 (Some ''v1'')]))
     = Inl \<lparr>status_code = 500, error = ''ServerError'',
            message = ''Insufficient stock for product Widget''\<rparr> \<and>
   snd (placeOrder ReadsBeforeWrites env1 None shop
          (request [line ''p1'' 2 None, line ''p2'' 1 (Some ''v1'')])) = shop \<and>
   fst (placeOrder ReadsBeforeWrites env1 None shop
          (request [line ''p2'' 1 (Some ''v1''), line ''p1'' 2 None]))
     = Inl \<lparr>status_code = 500, error = ''ServerError'',
            message = READ_AFTER_WRITE_ERROR_MSG\<rparr> \<and>
   snd (placeOrder ReadsBeforeWrites env1 None shop
          (request [line ''p2'' 1 (Some ''v1''), line ''p1'' 2 None])) = shop \<and>
   fst (placeOrder ReadsFromSnapshot env1 None shop
          (request [line ''p2'' 1 (Some ''v1''), line ''p1'' 2 None]))
     = Inl \<lparr>status_code = 500, error = ''ServerError'',
            message = ''Insufficient stock for product Widget''\<rparr> \<and>
   snd (placeOrder ReadsFromSnapshot env1 None shop
          (request [line ''p2'' 1 (Some ''v1''), line ''p1'' 2 None])) = shop"
proof -
  have first_short:
    "fst (placeOrder ReadsBeforeWrites env1 None shop
            (request [line ''p1'' 2 None, line ''p2'' 1 (Some ''v1'')]))
       = Inl \<lparr>status_code = 500, error = ''ServerError'',
              message = ''Insufficient stock for product Widget''\<rparr>"
    by (simp add: order_defs example_defs)
  have second_refused:
    "fst (placeOrder ReadsBeforeWrites env1 None shop
            (request [line ''p2'' 1 (Some ''v1''), line ''p1'' 2 None]))
       = Inl \<lparr>status_code = 500, error = ''ServerError'',
              message = READ_AFTER_WRITE_ERROR_MSG\<rparr>"
    by (simp add: order_defs example_defs READ_AFTER_WRITE_ERROR_MSG_def)
  have second_short:
    "fst (placeOrder ReadsFromSnapshot env1 None shop
            (request [line ''p2'' 1 (Some ''v1''), line ''p1'' 2 None]))
       = Inl \<lparr>status_code = 500, error = ''ServerError'',
              message = ''Insufficient stock for product Widget''\<rparr>"
    by (simp add: order_defs example_defs)
  from first_short second_refused second_short
    placeOrder_failure_no_effect[OF first_short]
    placeOrder_failure_no_effect[OF second_refused]
    placeOrder_failure_no_effect[OF second_short]
  show ?thesis by blast
qed

section \<open>Totals of a created order\<close>

lemma placeOrder_tx_totals:
  assumes "placeOrder_tx rule e u d r = Inr ((oid, ord), ws)"
  shows "tax ord = fmul (subtotal ord) (fl (1 / 10)) \<and>
         shipping ord = (if js_less (Num 50) (subtotal ord) then Num 0 else fl (999 / 100)) \<and>
         total ord = fadd (fadd (subtotal ord) (tax ord)) (shipping ord)"
  using assms
  by (auto simp: placeOrder_tx_def Let_def split: sum.splits prod.splits)

text \<open>The subtotal is the sum of the line subtotals, added up from 0 in the order of the lines.\<close>

lemma processItem_subtotal:
  assumes "processItem rule d t (sub, ois, ws) it = Inr (sub', ois', ws')"
  shows "\<exists>oi. ois' = ois @ [oi] \<and> sub' = fadd sub (oi_subtotal oi) \<and>
              oi_subtotal oi = fmul (productPrice oi) (of_quantity (oi_quantity oi))"
  using assms
  by (auto simp: processItem_def Let_def
      split: if_splits option.splits sum.splits)

lemma processItems_subtotal:
  assumes "processItems rule d t (sub, ois, ws) its = Inr (sub', ois', ws')"
  shows "\<exists>new. ois' = ois @ new \<and> sub' = foldl fadd sub (map oi_subtotal new) \<and>
               (\<forall>oi\<in>set new. oi_subtotal oi = fmul (productPrice oi) (of_quantity (oi_quantity oi)))"
  using assms
proof (induction its arbitrary: sub ois ws)
  case Nil
  then show ?case by simp
next
  case (Cons a its)
  from Cons.prems obtain st1 where a: "processItem rule d t (sub, ois, ws) a = Inr st1"
    and rest: "processItems rule d t st1 its = Inr (sub', ois', ws')"
    by (auto split: sum.splits)
  obtain sub1 ois1 ws1 where st1: "st1 = (sub1, ois1, ws1)" by (cases st1) auto
  from processItem_subtotal[OF a[unfolded st1]] obtain oi where
    oi: "ois1 = ois @ [oi]" "sub1 = fadd sub (oi_subtotal oi)"
        "oi_subtotal oi = fmul (productPrice oi) (of_quantity (oi_quantity oi))"
    by blast
  from Cons.IH[OF rest[unfolded st1]] obtain new where
    new: "ois' = ois1 @ new" "sub' = foldl fadd sub1 (map oi_subtotal new)"
         "\<forall>oi\<in>set new. oi_subtotal oi = fmul (productPrice oi) (of_quantity (oi_quantity oi))"
    by blast
  show ?case
  proof (intro exI[of _ "oi # new"] conjI)
    show "ois' = ois @ oi # new" using oi(1) new(1) by simp
    show "sub' = foldl fadd sub (map oi_subtotal (oi # new))" using oi(2) new(2) by simp
    show "\<forall>x\<in>set (oi # new). oi_subtotal x = fmul (productPrice x) (of_quantity (oi_quantity x))"
      using oi(3) new(3) by simp
  qed
qed

lemma placeOrder_tx_subtotal:
  assumes "placeOrder_tx rule e u d r = Inr ((oid, ord), ws)"
  shows "subtotal ord = foldl fadd (Num 0) (map oi_subtotal (o_items ord)) \<and>
         (\<forall>oi\<in>set (o_items ord).
            oi_subtotal oi = fmul (productPrice oi) (of_quantity (oi_quantity oi)))"
proof -
  from assms obtain sub ois ws0 where
    loop: "processItems rule d (now e) (Num 0, [], []) (items r) = Inr (sub, ois, ws0)"
    and ord: "subtotal ord = sub" "o_items ord = ois"
    by (auto simp: placeOrder_tx_def Let_def split: sum.splits prod.splits)
  from processItems_subtotal[OF loop] ord show ?thesis by auto
qed

text \<open>
  The handler reads neither the \<^verbatim>\<open>couponCode\<close> of the body nor the collection of
  coupons.
\<close>

lemma placeOrder_tx_couponCode:
  "placeOrder_tx rule e u d (r\<lparr>couponCode := cc\<rparr>) = placeOrder_tx rule e u d r"
  unfolding placeOrder_tx_def by (simp split: sum.splits prod.splits option.splits)

lemma placeOrder_couponCode:
  "placeOrder rule e u d (r\<lparr>couponCode := cc\<rparr>) = placeOrder rule e u d r"
  unfolding placeOrder_def by (simp add: validationResult_def placeOrder_tx_couponCode)

lemma apply_write_coupons:
  "apply_write (d\<lparr>coupons := cs\<rparr>) w = map_option (\<lambda>d'. d'\<lparr>coupons := cs\<rparr>) (apply_write d w)"
  by (cases w) (simp_all split: option.splits)

lemma commit_coupons:
  "commit (d\<lparr>coupons := cs\<rparr>) ws = map_option (\<lambda>d'. d'\<lparr>coupons := cs\<rparr>) (commit d ws)"
proof (induction ws arbitrary: d)
  case Nil
  then show ?case by simp
next
  case (Cons w ws)
  show ?case
  proof (cases "apply_write d w")
    case None
    then show ?thesis by (simp add: apply_write_coupons)
  next
    case (Some d1)
    then show ?thesis by (simp add: apply_write_coupons Cons.IH)
  qed
qed

lemma processItem_coupons:
  "processItem rule (d\<lparr>coupons := cs\<rparr>) t st it = processItem rule d t st it"
  by (simp add: processItem_def tx_get_def split: prod.splits sum.splits option.splits)

lemma processItems_coupons:
  "processItems rule (d\<lparr>coupons := cs\<rparr>) t st its = processItems rule d t st its"
  by (induction its arbitrary: st) (simp_all add: processItem_coupons split: sum.splits)

lemma placeOrder_tx_coupons:
  "placeOrder_tx rule e u (d\<lparr>coupons := cs\<rparr>) r = placeOrder_tx rule e u d r"
  unfolding placeOrder_tx_def by (simp add: processItems_coupons)

lemma runTransaction_coupons:
  "runTransaction (d\<lparr>coupons := cs\<rparr>) x =
     (fst (runTransaction d x), (snd (runTransaction d x))\<lparr>coupons := cs\<rparr>)"
  by (simp add: runTransaction_def commit_coupons split: sum.splits prod.splits option.splits)

lemma placeOrder_coupons:
  "placeOrder rule e u (d\<lparr>coupons := cs\<rparr>) r =
     (fst (placeOrder rule e u d r), (snd (placeOrder rule e u d r))\<lparr>coupons := cs\<rparr>)"
  unfolding placeOrder_def
  by (simp add: placeOrder_tx_coupons runTransaction_coupons split: sum.splits prod.splits)


text \<open>
  The total that the specification asks for, for the widget order: 11.10 without a
  discount and 11.00 with a discount of ten percent of the subtotal.
\<close>

lemma fl_11: "fl 11 = Num 11"
  by (simp add: fl_normal[of "- 49"] fl_eval)

lemma spec_total_widget:
  "spec_total (fl (101 / 100)) 0 (fl (101 / 1000)) (fl (999 / 100)) = fl (111 / 10)"
  by (simp add: spec_total_def round_half_up_2dp_def fl_101_100 fl_101_1000 fl_999_100
      floor_rat_numeral)

lemma spec_total_widget_discount:
  "spec_total (fl (101 / 100)) (101 / 1000) (fl (101 / 1000)) (fl (999 / 100)) = fl 11"
  by (simp add: spec_total_def round_half_up_2dp_def fl_101_100 fl_101_1000 fl_999_100
      floor_rat_numeral)

lemma total_widget_differs:
  "fl (11101 / 1000) \<noteq> fl (111 / 10)" "fl (11101 / 1000) \<noteq> fl 11" "fl (999 / 100) \<noteq> Num 0"
  by (simp_all add: fl_11101_1000 fl_111_10 fl_999_100 fl_11)

lemma widget_order_placed_with_coupon:
  "fst (placeOrder ReadsBeforeWrites env1 None shop_with_coupons
          ((request [line ''p1'' 1 None])\<lparr>couponCode := cc\<rparr>))
     = Inr (201, ''o1'', widget_order)"
  unfolding shop_with_coupons_def
  by (simp add: placeOrder_couponCode placeOrder_coupons widget_order_placed)

lemma freeship_found:
  "find_coupon shop_with_coupons ''FREESHIP'' = Some (''c2'', freeship)"
  "discountType freeship = ''freeShipping''"
  by (simp_all add: find_coupon_def shop_with_coupons_def shop_def freeship_def save10_def
      toUpperCase_def toUpperCase_char_def)

text \<open>
  C6, as the specification states it, fails. The request for one widget at 1.01 is sent
  with the code of an active coupon for free shipping, and with the code of an active
  coupon for ten percent: both times the order is the one created without a coupon, with
  the shipping 9.99 and the total 11.101. The total that the specification asks for,
  subtotal minus discount plus tax plus shipping rounded to two decimal places with
  round-half-up, is 11.10 without a discount and 11.00 with the discount of 0.101.
\<close>

theorem placeOrder_total_not_rounded:
  "find_coupon shop_with_coupons ''FREESHIP'' = Some (''c2'', freeship) \<and>
   discountType freeship = ''freeShipping'' \<and>
   fst (placeOrder ReadsBeforeWrites env1 None shop_with_coupons
          ((request [line ''p1'' 1 None])\<lparr>couponCode := Some ''FREESHIP''\<rparr>))
     = Inr (201, ''o1'', widget_order) \<and>
   fst (placeOrder ReadsBeforeWrites env1 None shop_with_coupons
          ((request [line ''p1'' 1 None])\<lparr>couponCode := Some ''SAVE10''\<rparr>))
     = Inr (201, ''o1'', widget_order) \<and>
   shipping widget_order = fl (999 / 100) \<and>
   shipping widget_order \<noteq> Num 0 \<and>
   total widget_order = fl (11101 / 1000) \<and>
   spec_total (subtotal widget_order) 0 (tax widget_order) (shipping widget_order)
     = fl (111 / 10) \<and>
   spec_total (subtotal widget_order) (101 / 1000) (tax widget_order) (shipping widget_order)
     = fl 11 \<and>
   total widget_order
     \<noteq> spec_total (subtotal widget_order) 0 (tax widget_order) (shipping widget_order) \<and>
   total widget_order
     \<noteq> spec_total (subtotal widget_order) (101 / 1000) (tax widget_order)
         (shipping widget_order)"
proof -
  have f: "subtotal widget_order = fl (101 / 100)" "tax widget_order = fl (101 / 1000)"
    "shipping widget_order = fl (999 / 100)" "total widget_order = fl (11101 / 1000)"
    by (simp_all add: widget_order_def example_order_def)
  show ?thesis
    unfolding f
    using freeship_found widget_order_placed_with_coupon spec_total_widget
      spec_total_widget_discount total_widget_differs
    by simp
qed

text \<open>
  C6, amended. For every order that \<^verbatim>\<open>POST /\<close> creates, the amounts are doubles
  computed without rounding to two decimal places: every line subtotal is the unit price
  times the quantity, the subtotal is the sum of the line subtotals added up from 0 in the
  order of the lines, the tax is the subtotal times 0.1, the shipping is 0 when the
  subtotal is above 50 and 9.99 otherwise, and the total is subtotal plus tax, plus
  shipping; every operation gives the double nearest to its exact result. The handler
  reads neither a coupon code in the body nor the collection of coupons: the response is
  the same whatever they are, so no discount is subtracted and no coupon makes the
  shipping free.
\<close>

theorem placeOrder_totals:
  assumes "fst (placeOrder rule e u d r) = Inr (c, oid, ord)"
  shows "(\<forall>oi\<in>set (o_items ord).
            oi_subtotal oi = fmul (productPrice oi) (of_quantity (oi_quantity oi))) \<and>
         subtotal ord = foldl fadd (Num 0) (map oi_subtotal (o_items ord)) \<and>
         tax ord = fmul (subtotal ord) (fl (1 / 10)) \<and>
         shipping ord = (if js_less (Num 50) (subtotal ord) then Num 0 else fl (999 / 100)) \<and>
         total ord = fadd (fadd (subtotal ord) (tax ord)) (shipping ord) \<and>
         fst (placeOrder rule e u (d\<lparr>coupons := cs\<rparr>) (r\<lparr>couponCode := cc\<rparr>))
           = Inr (c, oid, ord)"
proof -
  from placeOrder_success_tx[OF assms] obtain ws where
    tx: "placeOrder_tx rule e u d r = Inr ((oid, ord), ws)" by blast
  have "fst (placeOrder rule e u (d\<lparr>coupons := cs\<rparr>) (r\<lparr>couponCode := cc\<rparr>))
          = fst (placeOrder rule e u d r)"
    by (simp add: placeOrder_couponCode placeOrder_coupons)
  with assms placeOrder_tx_totals[OF tx] placeOrder_tx_subtotal[OF tx] show ?thesis
    by simp
qed

theorem placeOrder_totals_witness:
  "fst (placeOrder ReadsBeforeWrites env1 (Some ann) shop (request [line ''p2'' 1 (Some ''v1'')]))
     = Inr (201, ''o1'', shirt_order) \<and>
   subtotal shirt_order = Num 25 \<and>
   tax shirt_order = fmul (Num 25) (fl (1 / 10)) \<and>
   shipping shirt_order = fl (999 / 100) \<and>
   total shirt_order = fadd (fadd (Num 25) (tax shirt_order)) (fl (999 / 100)) \<and>
   fst (placeOrder ReadsBeforeWrites env1 (Some ann)
          (shop\<lparr>coupons := [(''c1'', save10), (''c2'', freeship)]\<rparr>)
          ((request [line ''p2'' 1 (Some ''v1'')])\<lparr>couponCode := Some ''FREESHIP''\<rparr>))
     = Inr (201, ''o1'', shirt_order)"
proof -
  have placed:
    "fst (placeOrder ReadsBeforeWrites env1 (Some ann) shop (request [line ''p2'' 1 (Some ''v1'')]))
       = Inr (201, ''o1'', shirt_order)"
    by (simp add: shirt_order_placed)
  have sub: "subtotal shirt_order = Num 25"
    by (simp add: shirt_order_def example_order_def)
  from placeOrder_totals[OF placed, of "[(''c1'', save10), (''c2'', freeship)]" "Some ''FREESHIP''"]
    placed sub
  show ?thesis by simp
qed

section \<open>Insufficient stock is answered with status 500\<close>

lemma processItem_short_stock:
  assumes "products d (productId it) = Some p"
    and "stockQuantity p < quantity it \<or>
         (\<exists>v. selected_variant it p = Some v \<and> v_stock v < quantity it)"
  shows "\<exists>m. processItem rule d t st it = Inl m"
  using assms
  by (cases st) (auto simp: processItem_def tx_get_def)

lemma processItems_member_fails:
  assumes "it \<in> set its" and "\<And>st. \<exists>m. processItem rule d t st it = Inl m"
  shows "\<exists>m. processItems rule d t st its = Inl m"
  using assms(1)
proof (induction its arbitrary: st)
  case Nil
  then show ?case by simp
next
  case (Cons a its)
  show ?case
  proof (cases "processItem rule d t st a")
    case (Inl m)
    then show ?thesis by simp
  next
    case (Inr st')
    have "a \<noteq> it" using Inr assms(2)[of st] by auto
    with Cons.prems have "it \<in> set its" by simp
    from Cons.IH[OF this] Inr show ?thesis by simp
  qed
qed

lemma placeOrder_tx_failed:
  assumes "validationResult r" and "placeOrder_tx rule e u d r = Inl m"
  shows "placeOrder rule e u d r =
           (Inl \<lparr>status_code = 500, error = ''ServerError'',
                 message = (if m = [] then ''Failed to create order'' else m)\<rparr>, d)"
  using assms by (simp add: placeOrder_def runTransaction_def)

text \<open>
  The text thrown by the first iteration of the loop when its line is short of stock, and
  the texts thrown by the loop are not empty, so that the fallback
  \<^verbatim>\<open>'Failed to create order'\<close> of the \<^verbatim>\<open>catch\<close> block is not used.
\<close>

lemma processItem_first_short_stock:
  assumes "products d (productId it) = Some p"
    and "stockQuantity p < quantity it \<or>
         (\<exists>v. selected_variant it p = Some v \<and> v_stock v < quantity it)"
  shows "processItem rule d t (sub, ois, []) it =
           Inl (if \<not> isActive p then ''Product '' @ name p @ '' is not available''
                else if stockQuantity p < quantity it
                     then ''Insufficient stock for product '' @ name p
                     else ''Insufficient stock for variant '' @
                          v_name (the (selected_variant it p)))"
  using assms by (auto simp: processItem_def tx_get_def)

lemma processItem_thrown_text:
  assumes "processItem rule d t st it = Inl m"
  shows "m \<noteq> []"
  using assms
  by (cases st)
    (auto simp: processItem_def tx_get_def READ_AFTER_WRITE_ERROR_MSG_def Let_def
      split: if_splits option.splits sum.splits)

lemma processItems_thrown_text:
  assumes "processItems rule d t st its = Inl m"
  shows "m \<noteq> []"
  using assms
proof (induction its arbitrary: st)
  case Nil
  then show ?case by simp
next
  case (Cons a its)
  show ?case
  proof (cases "processItem rule d t st a")
    case (Inl m')
    with Cons.prems have "m' = m" by simp
    with Inl processItem_thrown_text show ?thesis by blast
  next
    case (Inr st')
    with Cons.prems have "processItems rule d t st' its = Inl m" by simp
    then show ?thesis by (rule Cons.IH)
  qed
qed

text \<open>
  C7, as the specification states it, fails: two widgets from a stock of one are refused
  with status 500 and the error \<^verbatim>\<open>ServerError\<close>, not with status 409 and a code of
  their own.
\<close>

theorem placeOrder_short_stock_is_500:
  "fst (placeOrder ReadsBeforeWrites env1 None shop (request [line ''p1'' 2 None]))
     = Inl \<lparr>status_code = 500, error = ''ServerError'',
            message = ''Insufficient stock for product Widget''\<rparr>"
  by (simp add: order_defs example_defs)

text \<open>
  C7, amended. A valid request with a line that asks for more than the stock of its product
  (or of the variant it selects) fails, changes nothing, and is answered like every error
  thrown inside the transaction: status 500, error \<^verbatim>\<open>ServerError\<close>, and as message the
  text of the error that the transaction threw. When the line is the first of the request,
  that text is \<^verbatim>\<open>Product <name> is not available\<close> if its product is not active,
  otherwise \<^verbatim>\<open>Insufficient stock for product <name>\<close> if the quantity exceeds the
  \<^verbatim>\<open>stockQuantity\<close> of the product, and otherwise
  \<^verbatim>\<open>Insufficient stock for variant <name of the variant>\<close>.
\<close>

theorem placeOrder_short_stock_ServerError:
  assumes "validationResult r" and "it \<in> set (items r)"
    and "products d (productId it) = Some p"
    and "stockQuantity p < quantity it \<or>
         (\<exists>v. selected_variant it p = Some v \<and> v_stock v < quantity it)"
  shows "\<exists>m. placeOrder rule e u d r =
                (Inl \<lparr>status_code = 500, error = ''ServerError'', message = m\<rparr>, d) \<and>
             placeOrder_tx rule e u d r = Inl m \<and>
             (hd (items r) = it
                \<longrightarrow> m = (if \<not> isActive p then ''Product '' @ name p @ '' is not available''
                         else if stockQuantity p < quantity it
                              then ''Insufficient stock for product '' @ name p
                              else ''Insufficient stock for variant '' @
                                   v_name (the (selected_variant it p))))"
proof -
  have "\<And>st. \<exists>m. processItem rule d (now e) st it = Inl m"
    using processItem_short_stock[OF assms(3,4)] by blast
  then obtain m0 where m0: "processItems rule d (now e) (Num 0, [], []) (items r) = Inl m0"
    using processItems_member_fails[OF assms(2)] by blast
  then have tx: "placeOrder_tx rule e u d r = Inl m0"
    by (simp add: placeOrder_tx_def)
  have ne: "m0 \<noteq> []" using m0 by (rule processItems_thrown_text)
  have res: "placeOrder rule e u d r =
               (Inl \<lparr>status_code = 500, error = ''ServerError'', message = m0\<rparr>, d)"
    using placeOrder_tx_failed[OF assms(1) tx] ne by simp
  have "m0 = (if \<not> isActive p then ''Product '' @ name p @ '' is not available''
              else if stockQuantity p < quantity it
                   then ''Insufficient stock for product '' @ name p
                   else ''Insufficient stock for variant '' @
                        v_name (the (selected_variant it p)))"
    if h: "hd (items r) = it"
  proof -
    from assms(2) obtain its where "items r = it # its"
      using h by (cases "items r") auto
    then show ?thesis
      using m0 processItem_first_short_stock[OF assms(3,4), of rule "now e" "Num 0" "[]"]
      by simp
  qed
  with res tx show ?thesis by blast
qed

theorem placeOrder_short_stock_ServerError_witness:
  "validationResult (request [line ''p1'' 2 None]) \<and>
   products shop (productId (line ''p1'' 2 None)) = Some widget \<and>
   stockQuantity widget < quantity (line ''p1'' 2 None) \<and>
   placeOrder ReadsBeforeWrites env1 None shop (request [line ''p1'' 2 None]) =
     (Inl \<lparr>status_code = 500, error = ''ServerError'',
           message = ''Insufficient stock for product Widget''\<rparr>, shop)"
proof -
  let ?it = "line ''p1'' 2 None"
  have v: "validationResult (request [?it])"
    by (simp add: validationResult_def request_def line_def)
  have i: "?it \<in> set (items (request [?it]))" "hd (items (request [?it])) = ?it"
    by (simp_all add: request_def)
  have p: "products shop (productId ?it) = Some widget"
    by (simp add: shop_def line_def)
  have q: "stockQuantity widget < quantity ?it"
    by (simp add: widget_def line_def)
  have a: "isActive widget" "name widget = ''Widget''"
    by (simp_all add: widget_def)
  from placeOrder_short_stock_ServerError[OF v i(1) p disjI1[OF q], of ReadsBeforeWrites env1 None]
  obtain m where
    "placeOrder ReadsBeforeWrites env1 None shop (request [?it]) =
       (Inl \<lparr>status_code = 500, error = ''ServerError'', message = m\<rparr>, shop)"
    "m = ''Insufficient stock for product '' @ name widget"
    using i(2) a(1) q by auto
  with v p q a(2) show ?thesis by simp
qed

section \<open>Prices come from the product documents\<close>

lemma selected_variant_clientPrice [simp]:
  "selected_variant (it\<lparr>clientPrice := x\<rparr>) p = selected_variant it p"
  by (simp add: selected_variant_def split: option.splits)

lemma variant_writes_clientPrice [simp]:
  "variant_writes (it\<lparr>clientPrice := x\<rparr>) p = variant_writes it p"
  by (simp add: variant_writes_def split: option.splits)

lemma processItem_clientPrice:
  "processItem rule d t st (it\<lparr>clientPrice := x\<rparr>) = processItem rule d t st it"
  by (simp add: processItem_def split: prod.splits sum.splits option.splits)

lemma processItems_clientPrice:
  "processItems rule d t st (map (\<lambda>it. it\<lparr>clientPrice := None\<rparr>) its)
     = processItems rule d t st its"
  by (induction its arbitrary: st) (auto simp: processItem_clientPrice split: sum.splits)

lemma validationResult_strip: "validationResult (strip_prices r) = validationResult r"
  by (simp add: validationResult_def strip_prices_def list_all_iff)

lemma placeOrder_tx_strip:
  "placeOrder_tx rule e u d (strip_prices r) = placeOrder_tx rule e u d r"
proof -
  have "processItems rule d (now e) (Num 0, [], []) (items (strip_prices r))
        = processItems rule d (now e) (Num 0, [], []) (items r)"
    by (simp add: strip_prices_def processItems_clientPrice)
  moreover have "r_customerEmail (strip_prices r) = r_customerEmail r"
    "r_customerName (strip_prices r) = r_customerName r"
    "r_shippingAddress (strip_prices r) = r_shippingAddress r"
    "r_billingAddress (strip_prices r) = r_billingAddress r"
    "r_paymentToken (strip_prices r) = r_paymentToken r"
    "r_notes (strip_prices r) = r_notes r"
    by (simp_all add: strip_prices_def)
  ultimately show ?thesis
    unfolding placeOrder_tx_def by (simp split: sum.splits prod.splits option.splits)
qed

lemma placeOrder_strip: "placeOrder rule e u d (strip_prices r) = placeOrder rule e u d r"
  unfolding placeOrder_def by (simp only: validationResult_strip placeOrder_tx_strip)

text \<open>
  C9. Two requests that differ only in client-supplied price-like fields (on a line or on
  the body) get the same response and leave the same database: the unit prices, line
  subtotals, subtotal, tax, shipping and total of the order are those derived from the
  product and variant documents read in the transaction.
\<close>

theorem placeOrder_ignores_client_prices:
  assumes "strip_prices r1 = strip_prices r2"
  shows "placeOrder rule e u d r1 = placeOrder rule e u d r2"
proof -
  have "placeOrder rule e u d r1 = placeOrder rule e u d (strip_prices r1)"
    by (simp add: placeOrder_strip)
  also have "\<dots> = placeOrder rule e u d (strip_prices r2)"
    using assms by simp
  also have "\<dots> = placeOrder rule e u d r2"
    by (simp add: placeOrder_strip)
  finally show ?thesis .
qed

theorem placeOrder_ignores_client_prices_witness:
  "strip_prices ((request [(line ''p1'' 1 None)\<lparr>clientPrice := Some (1 / 100)\<rparr>])
                   \<lparr>clientTotal := Some (1 / 100)\<rparr>)
     = strip_prices (request [line ''p1'' 1 None]) \<and>
   fst (placeOrder ReadsBeforeWrites env1 None shop
          ((request [(line ''p1'' 1 None)\<lparr>clientPrice := Some (1 / 100)\<rparr>])
             \<lparr>clientTotal := Some (1 / 100)\<rparr>))
     = Inr (201, ''o1'', widget_order) \<and>
   total widget_order = fl (11101 / 1000)"
proof -
  have same:
    "strip_prices ((request [(line ''p1'' 1 None)\<lparr>clientPrice := Some (1 / 100)\<rparr>])
                     \<lparr>clientTotal := Some (1 / 100)\<rparr>)
       = strip_prices (request [line ''p1'' 1 None])"
    by (simp add: strip_prices_def request_def line_def)
  have "total widget_order = fl (11101 / 1000)"
    by (simp add: widget_order_def example_order_def)
  with same placeOrder_ignores_client_prices[OF same, of ReadsBeforeWrites env1 None shop]
  show ?thesis by (simp add: widget_order_placed)
qed

section \<open>A line with an unknown variant\<close>

lemma findIndex_no_match: "\<forall>x\<in>set xs. \<not> P x \<Longrightarrow> findIndex P xs = None"
  by (induction xs) auto

lemma selected_variant_no_match:
  assumes "variantId it = Some v" and "\<forall>vs. variants p = Some vs \<longrightarrow> v \<notin> v_id ` set vs"
  shows "selected_variant it p = None"
  using assms by (auto simp: selected_variant_def find_None_iff split: option.splits)

lemma variant_writes_no_match:
  assumes "variantId it = Some v" and "\<forall>vs. variants p = Some vs \<longrightarrow> v \<notin> v_id ` set vs"
  shows "variant_writes it p = []"
proof (cases "variants p")
  case None
  then show ?thesis by (simp add: variant_writes_def)
next
  case (Some vs)
  with assms have "findIndex (\<lambda>x. Some (v_id x) = variantId it) vs = None"
    by (intro findIndex_no_match) auto
  with Some show ?thesis by (simp add: variant_writes_def)
qed

lemma processItem_no_match:
  assumes "tx_get rule d ws (productId it) = Inr (Some p)"
    and "isActive p" and "quantity it \<le> stockQuantity p"
    and "variantId it = Some v"
    and "\<forall>vs. variants p = Some vs \<longrightarrow> v \<notin> v_id ` set vs"
  shows "processItem rule d t (sub, ois, ws) it =
           Inr (fadd sub (fmul (price p) (of_quantity (quantity it))),
                ois @ [\<lparr>oi_productId = productId it, productName = name p,
                        productPrice = price p, oi_quantity = quantity it,
                        oi_variantId = (if v = [] then None else Some v),
                        variantName = None,
                        oi_subtotal = fmul (price p) (of_quantity (quantity it))\<rparr>],
                ws @ [UpdateStock (productId it) (- quantity it) t])"
  using assms(1-4) selected_variant_no_match[OF assms(4,5)] variant_writes_no_match[OF assms(4,5)]
  by (simp add: processItem_def truthy_str_def Let_def)

lemma placeOrder_tx_from_loop:
  assumes "processItems rule d (now e) (Num 0, [], []) (items r) = Inr (sub, ois, ws)"
  shows "\<exists>ord. placeOrder_tx rule e u d r =
                 Inr ((newOrderId e, ord), ws @ [SetOrder (newOrderId e) ord]) \<and>
               o_items ord = ois \<and> subtotal ord = sub"
  using assms by (simp add: placeOrder_tx_def Let_def)

text \<open>
  C10. A line whose \<^verbatim>\<open>variantId\<close> matches no variant of its product (the product may
  have no variants at all) is not refused for that: whenever the loop reads the product,
  finds it active and with enough product-level stock, the iteration succeeds, charges the
  price of the product, records \<^verbatim>\<open>variantName\<close> as null and buffers a single write, the
  decrement of the product-level \<^verbatim>\<open>stockQuantity\<close>. A request made of that one line is
  answered with status 201, and the product document afterwards differs only in
  \<^verbatim>\<open>stockQuantity\<close> and \<^verbatim>\<open>updatedAt\<close>: its variants are as before.
\<close>

theorem unknown_variant_falls_back_to_product:
  assumes "products d (productId it) = Some p"
    and "isActive p" and "quantity it \<le> stockQuantity p"
    and "variantId it = Some v"
    and "\<forall>vs. variants p = Some vs \<longrightarrow> v \<notin> v_id ` set vs"
  shows "(rule = ReadsFromSnapshot \<or> ws = [] \<longrightarrow>
            processItem rule d t (sub, ois, ws) it =
              Inr (fadd sub (fmul (price p) (of_quantity (quantity it))),
                   ois @ [\<lparr>oi_productId = productId it, productName = name p,
                           productPrice = price p, oi_quantity = quantity it,
                           oi_variantId = (if v = [] then None else Some v),
                           variantName = None,
                           oi_subtotal = fmul (price p) (of_quantity (quantity it))\<rparr>],
                   ws @ [UpdateStock (productId it) (- quantity it) t])) \<and>
         (items r = [it] \<and> validationResult r \<longrightarrow>
            (\<exists>ord. placeOrder rule e u d r =
                     (Inr (201, newOrderId e, ord),
                      d\<lparr>products := (products d)(productId it \<mapsto>
                                      p\<lparr>stockQuantity := stockQuantity p - quantity it,
                                        p_updatedAt := now e\<rparr>),
                        orders := (orders d)(newOrderId e \<mapsto> ord)\<rparr>) \<and>
                   o_items ord =
                     [\<lparr>oi_productId = productId it, productName = name p,
                       productPrice = price p, oi_quantity = quantity it,
                       oi_variantId = (if v = [] then None else Some v),
                       variantName = None,
                       oi_subtotal = fmul (price p) (of_quantity (quantity it))\<rparr>] \<and>
                   subtotal ord = fadd (Num 0) (fmul (price p) (of_quantity (quantity it)))))"
proof (intro conjI impI)
  assume "rule = ReadsFromSnapshot \<or> ws = []"
  then have "tx_get rule d ws (productId it) = Inr (Some p)"
    using assms(1) by (auto simp: tx_get_def)
  from processItem_no_match[OF this assms(2-5)]
  show "processItem rule d t (sub, ois, ws) it =
              Inr (fadd sub (fmul (price p) (of_quantity (quantity it))),
                   ois @ [\<lparr>oi_productId = productId it, productName = name p,
                           productPrice = price p, oi_quantity = quantity it,
                           oi_variantId = (if v = [] then None else Some v),
                           variantName = None,
                           oi_subtotal = fmul (price p) (of_quantity (quantity it))\<rparr>],
                   ws @ [UpdateStock (productId it) (- quantity it) t])" .
next
  assume r: "items r = [it] \<and> validationResult r"
  have "tx_get rule d [] (productId it) = Inr (Some p)"
    using assms(1) by (simp add: tx_get_def)
  from processItem_no_match[OF this assms(2-5), of "now e" "Num 0" "[]"]
  have loop: "processItems rule d (now e) (Num 0, [], []) (items r) =
          Inr (fadd (Num 0) (fmul (price p) (of_quantity (quantity it))),
               [\<lparr>oi_productId = productId it, productName = name p,
                 productPrice = price p, oi_quantity = quantity it,
                 oi_variantId = (if v = [] then None else Some v),
                 variantName = None,
                 oi_subtotal = fmul (price p) (of_quantity (quantity it))\<rparr>],
               [UpdateStock (productId it) (- quantity it) (now e)])"
    using r by simp
  show "\<exists>ord. placeOrder rule e u d r =
                     (Inr (201, newOrderId e, ord),
                      d\<lparr>products := (products d)(productId it \<mapsto>
                                      p\<lparr>stockQuantity := stockQuantity p - quantity it,
                                        p_updatedAt := now e\<rparr>),
                        orders := (orders d)(newOrderId e \<mapsto> ord)\<rparr>) \<and>
                   o_items ord =
                     [\<lparr>oi_productId = productId it, productName = name p,
                       productPrice = price p, oi_quantity = quantity it,
                       oi_variantId = (if v = [] then None else Some v),
                       variantName = None,
                       oi_subtotal = fmul (price p) (of_quantity (quantity it))\<rparr>] \<and>
                   subtotal ord = fadd (Num 0) (fmul (price p) (of_quantity (quantity it)))"
  proof -
    from placeOrder_tx_from_loop[OF loop] obtain ord where
      tx: "placeOrder_tx rule e u d r =
             Inr ((newOrderId e, ord),
                  [UpdateStock (productId it) (- quantity it) (now e)]
                  @ [SetOrder (newOrderId e) ord])"
      and ord: "o_items ord =
                     [\<lparr>oi_productId = productId it, productName = name p,
                       productPrice = price p, oi_quantity = quantity it,
                       oi_variantId = (if v = [] then None else Some v),
                       variantName = None,
                       oi_subtotal = fmul (price p) (of_quantity (quantity it))\<rparr>]"
               "subtotal ord = fadd (Num 0) (fmul (price p) (of_quantity (quantity it)))"
      by blast
    have "placeOrder rule e u d r =
                     (Inr (201, newOrderId e, ord),
                      d\<lparr>products := (products d)(productId it \<mapsto>
                                      p\<lparr>stockQuantity := stockQuantity p - quantity it,
                                        p_updatedAt := now e\<rparr>),
                        orders := (orders d)(newOrderId e \<mapsto> ord)\<rparr>)"
      using r assms(1) by (simp add: placeOrder_def tx runTransaction_def)
    with ord show ?thesis by blast
  qed
qed

theorem unknown_variant_falls_back_to_product_witness:
  "products shop (productId (line ''p2'' 1 (Some ''v9''))) = Some shirt \<and>
   isActive shirt \<and>
   quantity (line ''p2'' 1 (Some ''v9'')) \<le> stockQuantity shirt \<and>
   variants shirt = Some [large] \<and> v_id large = ''v1'' \<and>
   processItem ReadsBeforeWrites shop 1000 (Num 0, [], []) (line ''p2'' 1 (Some ''v9'')) =
     Inr (Num 20,
          [\<lparr>oi_productId = ''p2'', productName = ''Shirt'', productPrice = Num 20,
            oi_quantity = 1, oi_variantId = Some ''v9'', variantName = None,
            oi_subtotal = Num 20\<rparr>],
          [UpdateStock ''p2'' (- 1) 1000]) \<and>
   products (snd (placeOrder ReadsBeforeWrites env1 None shop
                    (request [line ''p2'' 1 (Some ''v9'')]))) ''p2''
     = Some (shirt\<lparr>stockQuantity := 4, p_updatedAt := 1000\<rparr>)"
proof -
  let ?it = "line ''p2'' 1 (Some ''v9'')"
  have p: "products shop (productId ?it) = Some shirt"
    by (simp add: shop_def line_def)
  have a: "isActive shirt" and q: "quantity ?it \<le> stockQuantity shirt"
    by (simp_all add: shirt_def line_def)
  have v: "variantId ?it = Some ''v9''"
    by (simp add: line_def)
  have vs: "variants shirt = Some [large]" "v_id large = ''v1''"
    by (simp_all add: shirt_def large_def)
  then have n: "\<forall>vs. variants shirt = Some vs \<longrightarrow> ''v9'' \<notin> v_id ` set vs"
    by simp
  have r: "items (request [?it]) = [?it] \<and> validationResult (request [?it])"
    by (simp add: request_def validationResult_def line_def)
  note fb = unknown_variant_falls_back_to_product[OF p a q v n,
              of ReadsBeforeWrites "[]" 1000 "Num 0" "[]" "request [?it]" env1 None]
  from fb have item: "processItem ReadsBeforeWrites shop 1000 (Num 0, [], []) ?it =
     Inr (Num 20,
          [\<lparr>oi_productId = ''p2'', productName = ''Shirt'', productPrice = Num 20,
            oi_quantity = 1, oi_variantId = Some ''v9'', variantName = None,
            oi_subtotal = Num 20\<rparr>],
          [UpdateStock ''p2'' (- 1) 1000])"
    by (simp add: line_def shirt_def of_quantity_1 fl_20)
  from fb r have "products (snd (placeOrder ReadsBeforeWrites env1 None shop (request [?it]))) ''p2''
     = Some (shirt\<lparr>stockQuantity := 4, p_updatedAt := 1000\<rparr>)"
    by (auto simp: line_def shirt_def env1_def)
  with p a q vs item show ?thesis by simp
qed

section \<open>Cancelling an order\<close>

lemmas cancel_defs = cancelOrder_def cancelOrder_read_def cancelOrder_commit_def cancelOrder_tx_def
  runTransaction_def truthy_str_def

text \<open>A call that no other request overlaps, with its two parts written as one.\<close>

lemma cancelOrder_alone:
  "cancelOrder t u d oid reason =
     (case orders d oid of
        None \<Rightarrow>
          (Inl \<lparr>status_code = 404, error = ''NOT_FOUND'', message = ''Order not found''\<rparr>, d)
      | Some ord \<Rightarrow>
          if u_role u \<noteq> ''GronderfulBlogs'' \<and> userId ord \<noteq> Some (u_id u)
          then (Inl \<lparr>status_code = 403, error = ''FORBIDDEN'', message = ''Access denied''\<rparr>, d)
          else if status ord \<notin> set [''pending'', ''processing'']
          then (Inl \<lparr>status_code = 400, error = ''INVALID_STATUS'',
                     message = ''Cannot cancel order with status: '' @ status ord\<rparr>, d)
          else
            (case runTransaction d (Inr ((), cancelOrder_tx t u oid ord reason)) of
               (Inl msg, d') \<Rightarrow>
                 (Inl \<lparr>status_code = 500, error = ''SERVER_ERROR'',
                       message = ''Failed to cancel order''\<rparr>, d')
             | (Inr x, d') \<Rightarrow> (Inr (orders d' oid), d')))"
  by (simp add: cancelOrder_def cancelOrder_read_def cancelOrder_commit_def split: option.splits)

lemma commit_restock_orders:
  "commit d (map (\<lambda>oi. UpdateStock (oi_productId oi) (oi_quantity oi) t) ois) = Some d'
     \<Longrightarrow> orders d' = orders d"
  by (induction ois arbitrary: d) (auto split: option.splits)

lemma cancelOrder_rejects:
  assumes "orders d oid = Some ord"
    and "status ord \<noteq> ''pending''" and "status ord \<noteq> ''processing''"
    and "u_role u = ''GronderfulBlogs'' \<or> userId ord = Some (u_id u)"
  shows "cancelOrder t u d oid reason =
           (Inl \<lparr>status_code = 400, error = ''INVALID_STATUS'',
                 message = ''Cannot cancel order with status: '' @ status ord\<rparr>, d)"
  using assms by (auto simp: cancelOrder_alone)

lemma cancelOrder_forbidden:
  assumes "orders d oid = Some ord"
    and "u_role u \<noteq> ''GronderfulBlogs''" and "userId ord \<noteq> Some (u_id u)"
  shows "cancelOrder t u d oid reason =
           (Inl \<lparr>status_code = 403, error = ''FORBIDDEN'', message = ''Access denied''\<rparr>, d)"
  using assms by (simp add: cancelOrder_alone)

lemma cancelOrder_success:
  assumes "fst (cancelOrder t u d oid reason) = Inr x"
  shows "\<exists>ord ord'. orders d oid = Some ord \<and>
            (status ord = ''pending'' \<or> status ord = ''processing'') \<and>
            (u_role u = ''GronderfulBlogs'' \<or> userId ord = Some (u_id u)) \<and>
            x = Some ord' \<and> status ord' = ''cancelled'' \<and> userId ord' = userId ord \<and>
            orders (snd (cancelOrder t u d oid reason)) oid = Some ord'"
proof -
  from assms obtain ord where ord: "orders d oid = Some ord"
    by (auto simp: cancelOrder_alone split: option.splits)
  from assms ord have st: "status ord = ''pending'' \<or> status ord = ''processing''"
    by (auto simp: cancelOrder_alone split: if_splits)
  from assms ord have au: "u_role u = ''GronderfulBlogs'' \<or> userId ord = Some (u_id u)"
    by (auto simp: cancelOrder_alone split: if_splits)
  let ?ws = "cancelOrder_tx t u oid ord reason"
  from assms ord st obtain d' where d': "commit d ?ws = Some d'"
    and res: "cancelOrder t u d oid reason = (Inr (orders d' oid), d')"
    by (auto simp: cancelOrder_alone runTransaction_def split: if_splits option.splits)
  from d' obtain d1 where
    d1: "commit d (map (\<lambda>oi. UpdateStock (oi_productId oi) (oi_quantity oi) t) (o_items ord))
           = Some d1"
    and fin: "commit d1 [UpdateCancelled oid t
                (if truthy_str reason then the reason else ''Cancelled by customer'') (u_id u)]
           = Some d'"
    by (auto simp: cancelOrder_tx_def commit_append split: option.splits)
  have "orders d1 oid = Some ord"
    using commit_restock_orders[OF d1] ord by simp
  with fin obtain ord' where "orders d' oid = Some ord'" "status ord' = ''cancelled''"
    "userId ord' = userId ord"
    by (auto split: option.splits)
  with ord st au res assms show ?thesis by auto
qed

text \<open>
  A call that no other request overlaps. If the order has a status other than
  \<^verbatim>\<open>pending\<close> and \<^verbatim>\<open>processing\<close>, the call changes nothing and is answered with status
  400 and the error \<^verbatim>\<open>INVALID_STATUS\<close> (403 for a user who is neither the owner nor an
  administrator). If the call succeeds, the order had one of these two statuses, is
  cancelled afterwards, and a later call for it is refused and changes nothing.
\<close>

lemma cancelOrder_alone_status_guard:
  "(orders d oid = Some ord \<and> status ord \<noteq> ''pending'' \<and> status ord \<noteq> ''processing''
    \<longrightarrow> snd (cancelOrder t u d oid reason) = d \<and>
        fst (cancelOrder t u d oid reason) =
          (if u_role u = ''GronderfulBlogs'' \<or> userId ord = Some (u_id u)
           then Inl \<lparr>status_code = 400, error = ''INVALID_STATUS'',
                     message = ''Cannot cancel order with status: '' @ status ord\<rparr>
           else Inl \<lparr>status_code = 403, error = ''FORBIDDEN'', message = ''Access denied''\<rparr>)) \<and>
   (fst (cancelOrder t u d oid reason) = Inr x
    \<longrightarrow> (\<exists>ord0 ord1. orders d oid = Some ord0 \<and>
           (status ord0 = ''pending'' \<or> status ord0 = ''processing'') \<and>
           x = Some ord1 \<and> status ord1 = ''cancelled'' \<and>
           orders (snd (cancelOrder t u d oid reason)) oid = Some ord1 \<and>
           cancelOrder t' u (snd (cancelOrder t u d oid reason)) oid reason' =
             (Inl \<lparr>status_code = 400, error = ''INVALID_STATUS'',
                   message = ''Cannot cancel order with status: cancelled''\<rparr>,
              snd (cancelOrder t u d oid reason))))"
proof (intro conjI impI)
  assume h: "orders d oid = Some ord \<and> status ord \<noteq> ''pending'' \<and> status ord \<noteq> ''processing''"
  show "snd (cancelOrder t u d oid reason) = d"
    using h cancelOrder_rejects[of d oid ord u t reason] cancelOrder_forbidden[of d oid ord u t reason]
    by (cases "u_role u = ''GronderfulBlogs'' \<or> userId ord = Some (u_id u)") auto
  show "fst (cancelOrder t u d oid reason) =
          (if u_role u = ''GronderfulBlogs'' \<or> userId ord = Some (u_id u)
           then Inl \<lparr>status_code = 400, error = ''INVALID_STATUS'',
                     message = ''Cannot cancel order with status: '' @ status ord\<rparr>
           else Inl \<lparr>status_code = 403, error = ''FORBIDDEN'', message = ''Access denied''\<rparr>)"
    using h cancelOrder_rejects[of d oid ord u t reason] cancelOrder_forbidden[of d oid ord u t reason]
    by (cases "u_role u = ''GronderfulBlogs'' \<or> userId ord = Some (u_id u)") auto
next
  assume ok: "fst (cancelOrder t u d oid reason) = Inr x"
  from cancelOrder_success[OF ok] obtain ord0 ord1 where
    h: "orders d oid = Some ord0" "status ord0 = ''pending'' \<or> status ord0 = ''processing''"
       "u_role u = ''GronderfulBlogs'' \<or> userId ord0 = Some (u_id u)"
       "x = Some ord1" "status ord1 = ''cancelled''" "userId ord1 = userId ord0"
       "orders (snd (cancelOrder t u d oid reason)) oid = Some ord1"
    by blast
  have again: "cancelOrder t' u (snd (cancelOrder t u d oid reason)) oid reason' =
                   (Inl \<lparr>status_code = 400, error = ''INVALID_STATUS'',
                         message = ''Cannot cancel order with status: '' @ status ord1\<rparr>,
                    snd (cancelOrder t u d oid reason))"
    using h by (intro cancelOrder_rejects) auto
  show "\<exists>ord0 ord1. orders d oid = Some ord0 \<and>
           (status ord0 = ''pending'' \<or> status ord0 = ''processing'') \<and>
           x = Some ord1 \<and> status ord1 = ''cancelled'' \<and>
           orders (snd (cancelOrder t u d oid reason)) oid = Some ord1 \<and>
           cancelOrder t' u (snd (cancelOrder t u d oid reason)) oid reason' =
             (Inl \<lparr>status_code = 400, error = ''INVALID_STATUS'',
                   message = ''Cannot cancel order with status: cancelled''\<rparr>,
              snd (cancelOrder t u d oid reason))"
    using h again by auto
qed

lemma shirt_order_cancel:
  "fst (cancelOrder 2000 ann shop_after_shirt_order ''o1'' None) = Inr (Some shirt_order_cancelled)"
  by (simp add: cancel_defs example_defs shop_after_shirt_order_def shirt_order_cancelled_def)

lemma cancelOrder_alone_example:
  "orders shop_shirt_shipped ''o1'' = Some (shirt_order\<lparr>status := ''shipped''\<rparr>) \<and>
   userId (shirt_order\<lparr>status := ''shipped''\<rparr>) = Some (u_id ann) \<and>
   fst (cancelOrder 2000 ann shop_shirt_shipped ''o1'' None) =
     Inl \<lparr>status_code = 400, error = ''INVALID_STATUS'',
          message = ''Cannot cancel order with status: shipped''\<rparr> \<and>
   snd (cancelOrder 2000 ann shop_shirt_shipped ''o1'' None) = shop_shirt_shipped \<and>
   fst (cancelOrder 2000 bob shop_shirt_shipped ''o1'' None) =
     Inl \<lparr>status_code = 403, error = ''FORBIDDEN'', message = ''Access denied''\<rparr> \<and>
   snd (cancelOrder 2000 bob shop_shirt_shipped ''o1'' None) = shop_shirt_shipped \<and>
   fst (cancelOrder 2000 ann shop_after_shirt_order ''o1'' None) = Inr (Some shirt_order_cancelled) \<and>
   cancelOrder 3000 ann (snd (cancelOrder 2000 ann shop_after_shirt_order ''o1'' None)) ''o1'' None =
     (Inl \<lparr>status_code = 400, error = ''INVALID_STATUS'',
           message = ''Cannot cancel order with status: cancelled''\<rparr>,
      snd (cancelOrder 2000 ann shop_after_shirt_order ''o1'' None))"
proof -
  let ?shipped = "shirt_order\<lparr>status := ''shipped''\<rparr>"
  have o: "orders shop_shirt_shipped ''o1'' = Some ?shipped"
    by (simp add: shop_shirt_shipped_def)
  have s: "status ?shipped = ''shipped''" "status ?shipped \<noteq> ''pending''"
    "status ?shipped \<noteq> ''processing''"
    by simp_all
  have a: "userId ?shipped = Some (u_id ann)"
    by (simp add: shirt_order_def example_order_def ann_def)
  have b: "u_role bob \<noteq> ''GronderfulBlogs''" "userId ?shipped \<noteq> Some (u_id bob)"
    by (simp_all add: shirt_order_def example_order_def bob_def)
  note g1 = cancelOrder_alone_status_guard[of shop_shirt_shipped "''o1''" ?shipped 2000 ann None]
  note g2 = cancelOrder_alone_status_guard[of shop_shirt_shipped "''o1''" ?shipped 2000 bob None]
  note g3 = cancelOrder_alone_status_guard[of shop_after_shirt_order "''o1''" _ 2000 ann None
               "Some shirt_order_cancelled" 3000 None]
  from g1 o s a have r1: "fst (cancelOrder 2000 ann shop_shirt_shipped ''o1'' None) =
     Inl \<lparr>status_code = 400, error = ''INVALID_STATUS'',
          message = ''Cannot cancel order with status: shipped''\<rparr>"
    "snd (cancelOrder 2000 ann shop_shirt_shipped ''o1'' None) = shop_shirt_shipped"
    by simp_all
  from g2 o s b have r2: "fst (cancelOrder 2000 bob shop_shirt_shipped ''o1'' None) =
     Inl \<lparr>status_code = 403, error = ''FORBIDDEN'', message = ''Access denied''\<rparr>"
    "snd (cancelOrder 2000 bob shop_shirt_shipped ''o1'' None) = shop_shirt_shipped"
    by simp_all
  from g3 shirt_order_cancel
  have r3: "cancelOrder 3000 ann (snd (cancelOrder 2000 ann shop_after_shirt_order ''o1'' None)) ''o1'' None =
     (Inl \<lparr>status_code = 400, error = ''INVALID_STATUS'',
           message = ''Cannot cancel order with status: cancelled''\<rparr>,
      snd (cancelOrder 2000 ann shop_after_shirt_order ''o1'' None))"
    by blast
  from o a r1 r2 r3 shirt_order_cancel show ?thesis by blast
qed

text \<open>
  An order and then its cancellation: the order that the SDK lets through has one line, the
  cancel transaction adds the quantity of that line back, and the product-level stock
  counter of every product is what it was before the order.
\<close>

lemma place_then_cancel_restores_stockQuantity:
  assumes placed: "fst (placeOrder ReadsBeforeWrites e u d r) = Inr (c, oid, ord)"
    and auth: "u_role a = ''GronderfulBlogs'' \<or> userId ord = Some (u_id a)"
    and p: "products d pid = Some p"
  shows "\<exists>ord' p'. fst (cancelOrder t a (snd (placeOrder ReadsBeforeWrites e u d r)) oid reason)
                      = Inr (Some ord') \<and>
           products (snd (cancelOrder t a (snd (placeOrder ReadsBeforeWrites e u d r)) oid reason)) pid
             = Some p' \<and>
           stockQuantity p' = stockQuantity p"
proof -
  let ?d1 = "snd (placeOrder ReadsBeforeWrites e u d r)"
  from placeOrder_one_line_result[OF placed] obtain it pi oi where
    h: "items r = [it]" "products d (productId it) = Some pi"
       "o_items ord = [oi]" "oi_productId oi = productId it" "oi_quantity oi = quantity it"
       "status ord = ''pending''" "orders ?d1 oid = Some ord"
    and eff: "\<forall>pid q. products d pid = Some q \<longrightarrow>
                 (\<exists>q'. products ?d1 pid = Some q' \<and>
                    stockQuantity q' =
                      stockQuantity q - (if pid = productId it then quantity it else 0))"
    by blast
  from eff h(2) obtain pi1 where pi1: "products ?d1 (productId it) = Some pi1"
    by blast
  from eff p obtain p1 where p1: "products ?d1 pid = Some p1"
    "stockQuantity p1 = stockQuantity p - (if pid = productId it then quantity it else 0)"
    by blast
  show ?thesis
    using h(3-7) auth pi1 p1
    by (cases "pid = productId it") (auto simp: cancel_defs)
qed

text \<open>
  C5 does not hold on the handler as written: it reads the order and checks the status
  before the transaction starts, and the transaction only writes. Ann orders one large
  shirt, which takes the stock of the product from 5 to 4, and two requests to cancel the
  order overlap. Both read the order with the status \<^verbatim>\<open>pending\<close> and pass the check;
  the transaction of the first commits and leaves the order cancelled and the stock 5; the
  transaction of the second commits on that state. Both requests are answered with status
  200 and the cancelled order, and the stock of the product is 6: the second cancel of
  the same order is not refused, and it adds the quantity of the order to the stock a
  second time.
\<close>

theorem overlapping_cancels_restock_twice:
  "products shop ''p2'' = Some shirt \<and> stockQuantity shirt = 5 \<and>
   placeOrder ReadsBeforeWrites env1 (Some ann) shop (request [line ''p2'' 1 (Some ''v1'')]) =
     (Inr (201, ''o1'', shirt_order), shop_after_shirt_order) \<and>
   cancelOrder_read ann shop_after_shirt_order ''o1'' = Inr shirt_order \<and>
   status shirt_order = ''pending'' \<and>
   orders (snd (cancelOrder_commit 2000 ann shop_after_shirt_order ''o1'' shirt_order None)) ''o1''
     = Some shirt_order_cancelled \<and>
   status shirt_order_cancelled = ''cancelled'' \<and>
   fst (cancelOrder_overlapping 2000 ann None 3000 ann None shop_after_shirt_order ''o1'')
     = Inr (Some shirt_order_cancelled) \<and>
   fst (snd (cancelOrder_overlapping 2000 ann None 3000 ann None shop_after_shirt_order ''o1''))
     = Inr (Some (shirt_order_cancelled\<lparr>cancelledAt := Some 3000, updatedAt := 3000\<rparr>)) \<and>
   products (snd (snd (cancelOrder_overlapping 2000 ann None 3000 ann None
                         shop_after_shirt_order ''o1''))) ''p2''
     = Some (shirt\<lparr>stockQuantity := 6, variants := Some [large\<lparr>v_stock := 4\<rparr>],
                   p_updatedAt := 3000\<rparr>)"
proof -
  have p: "products shop ''p2'' = Some shirt" "stockQuantity shirt = 5"
    by (simp_all add: shop_def shirt_def)
  have rd: "cancelOrder_read ann shop_after_shirt_order ''o1'' = Inr shirt_order"
    "status shirt_order = ''pending''"
    by (simp_all add: cancel_defs example_defs shop_after_shirt_order_def)
  have c1: "orders (snd (cancelOrder_commit 2000 ann shop_after_shirt_order ''o1'' shirt_order None))
              ''o1'' = Some shirt_order_cancelled"
    "status shirt_order_cancelled = ''cancelled''"
    by (simp_all add: cancel_defs example_defs shop_after_shirt_order_def
        shirt_order_cancelled_def)
  have both:
    "fst (cancelOrder_overlapping 2000 ann None 3000 ann None shop_after_shirt_order ''o1'')
       = Inr (Some shirt_order_cancelled)"
    "fst (snd (cancelOrder_overlapping 2000 ann None 3000 ann None shop_after_shirt_order ''o1''))
       = Inr (Some (shirt_order_cancelled\<lparr>cancelledAt := Some 3000, updatedAt := 3000\<rparr>))"
    "products (snd (snd (cancelOrder_overlapping 2000 ann None 3000 ann None
                           shop_after_shirt_order ''o1''))) ''p2''
       = Some (shirt\<lparr>stockQuantity := 6, variants := Some [large\<lparr>v_stock := 4\<rparr>],
                     p_updatedAt := 3000\<rparr>)"
    by (simp_all add: cancelOrder_overlapping_def cancel_defs example_defs
        shop_after_shirt_order_def shirt_order_cancelled_def Let_def)
  from p shirt_order_placed rd c1 both show ?thesis by blast
qed

text \<open>
  C4 does not hold on the handler as written. Ann orders one large shirt: the order takes
  one unit from the stock counter of the product (5 to 4) and one from the stock of the
  variant (5 to 4). She cancels: the cancel transaction writes the product-level counter
  back (4 to 5) and nothing else, so the variant keeps the stock 4.
\<close>

theorem cancel_leaves_variant_stock_reduced:
  "products shop ''p2'' = Some shirt \<and>
   stockQuantity shirt = 5 \<and> variants shirt = Some [large] \<and> v_stock large = 5 \<and>
   placeOrder ReadsBeforeWrites env1 (Some ann) shop (request [line ''p2'' 1 (Some ''v1'')]) =
     (Inr (201, ''o1'', shirt_order), shop_after_shirt_order) \<and>
   fst (cancelOrder 2000 ann shop_after_shirt_order ''o1'' None) = Inr (Some shirt_order_cancelled) \<and>
   products (snd (cancelOrder 2000 ann shop_after_shirt_order ''o1'' None)) ''p2'' =
     Some (shirt\<lparr>stockQuantity := 5, variants := Some [large\<lparr>v_stock := 4\<rparr>], p_updatedAt := 2000\<rparr>)"
proof -
  have "products (snd (cancelOrder 2000 ann shop_after_shirt_order ''o1'' None)) ''p2'' =
     Some (shirt\<lparr>stockQuantity := 5, variants := Some [large\<lparr>v_stock := 4\<rparr>], p_updatedAt := 2000\<rparr>)"
    by (simp add: cancel_defs example_defs shop_after_shirt_order_def)
  moreover have "products shop ''p2'' = Some shirt" "stockQuantity shirt = 5"
    "variants shirt = Some [large]" "v_stock large = 5"
    by (simp_all add: shop_def shirt_def large_def)
  ultimately show ?thesis
    using shirt_order_placed shirt_order_cancel by blast
qed

section \<open>Recording the use of a coupon\<close>

lemma map_of_update_doc:
  "map_of (update_doc k f xs) k' =
     (if k' = k then map_option f (map_of xs k') else map_of xs k')"
  by (induction xs) (auto simp: update_doc_def)

lemma doc_exists_map_of: "doc_exists k xs \<longleftrightarrow> map_of xs k \<noteq> None"
  by (induction xs) (auto simp: doc_exists_def)

lemma applyCoupon_step:
  assumes "map_of (coupons d) (ar_couponId r) = Some c"
    and "ar_couponId r \<noteq> []" and "ar_orderId r \<noteq> []" and "0 \<le> ar_discountAmount r"
  shows "\<exists>d'. applyCoupon t u d r = (Inr ''Coupon applied successfully'', d') \<and>
           map_of (coupons d') (ar_couponId r)
             = Some (c\<lparr>usedCount := usedCount c + 1, lastUsedAt := Some t\<rparr>) \<and>
           length (couponUsage d') = length (couponUsage d) + 1"
  using assms
  by (simp add: applyCoupon_def Let_def doc_exists_map_of map_of_update_doc)

text \<open>
  C3, as the specification states it, fails: the handler of \<^verbatim>\<open>POST /apply\<close> checks no
  limit. On the coupon \<^verbatim>\<open>SAVE10\<close>, which may be used once, the redemptions of Ann and of
  Bob both succeed, and the coupon ends with \<^verbatim>\<open>usedCount\<close> 2 above \<^verbatim>\<open>maxUses\<close> 1.
\<close>

theorem applyCoupon_exceeds_maxUses:
  "coupons shop = [(''c1'', save10)] \<and> maxUses save10 = Some 1 \<and> usedCount save10 = 0 \<and>
   fst (applyCoupons shop [(1, ann, redeem), (2, bob, redeem)])
     = [Inr ''Coupon applied successfully'', Inr ''Coupon applied successfully''] \<and>
   coupons (snd (applyCoupons shop [(1, ann, redeem), (2, bob, redeem)]))
     = [(''c1'', save10\<lparr>usedCount := 2, lastUsedAt := Some 2\<rparr>)]"
  by (simp add: applyCoupon_def doc_exists_def update_doc_def Let_def
      shop_def save10_def redeem_def ann_def bob_def)

text \<open>
  C3, amended. \<^verbatim>\<open>POST /apply\<close> runs no transaction and checks no usage limit: every
  call with a valid body on an existing coupon succeeds, appends one usage record and adds
  one to \<^verbatim>\<open>usedCount\<close>. So \<open>N\<close> redemptions of a coupon give \<open>N\<close> successes, \<open>N\<close> usage
  records and a \<^verbatim>\<open>usedCount\<close> that is \<open>N\<close> higher, whatever \<^verbatim>\<open>maxUses\<close> is.
\<close>

theorem applyCoupon_unconditional:
  assumes "map_of (coupons d) cid = Some c" and "cid \<noteq> []"
    and "\<forall>call\<in>set calls. ar_couponId (snd (snd call)) = cid \<and>
            ar_orderId (snd (snd call)) \<noteq> [] \<and> 0 \<le> ar_discountAmount (snd (snd call))"
  shows "fst (applyCoupons d calls)
           = replicate (length calls) (Inr ''Coupon applied successfully'') \<and>
         (\<exists>c'. map_of (coupons (snd (applyCoupons d calls))) cid = Some c' \<and>
                usedCount c' = usedCount c + int (length calls) \<and> maxUses c' = maxUses c) \<and>
         length (couponUsage (snd (applyCoupons d calls)))
           = length (couponUsage d) + length calls"
  using assms(1,3)
proof (induction calls arbitrary: d c)
  case Nil
  then show ?case by simp
next
  case (Cons call calls)
  obtain t u r where call: "call = (t, u, r)" by (cases call) auto
  with Cons.prems have r: "ar_couponId r = cid" "ar_orderId r \<noteq> []" "0 \<le> ar_discountAmount r"
    by auto
  from applyCoupon_step[of d r c t u] Cons.prems(1) r assms(2) obtain d1 where
    d1: "applyCoupon t u d r = (Inr ''Coupon applied successfully'', d1)"
        "map_of (coupons d1) cid = Some (c\<lparr>usedCount := usedCount c + 1, lastUsedAt := Some t\<rparr>)"
        "length (couponUsage d1) = length (couponUsage d) + 1"
    by auto
  from Cons.prems(2) have rest: "\<forall>call\<in>set calls. ar_couponId (snd (snd call)) = cid \<and>
            ar_orderId (snd (snd call)) \<noteq> [] \<and> 0 \<le> ar_discountAmount (snd (snd call))"
    by simp
  from Cons.IH[OF d1(2) rest] call d1 show ?case
    by (auto split: prod.splits)
qed

theorem applyCoupon_unconditional_witness:
  "map_of (coupons shop) ''c1'' = Some save10 \<and>
   ar_couponId redeem = ''c1'' \<and> ar_orderId redeem = ''o1'' \<and> ar_discountAmount redeem = 1 \<and>
   fst (applyCoupons shop [(1, ann, redeem), (2, bob, redeem)])
     = [Inr ''Coupon applied successfully'', Inr ''Coupon applied successfully''] \<and>
   length (couponUsage (snd (applyCoupons shop [(1, ann, redeem), (2, bob, redeem)]))) = 2"
proof -
  have c: "map_of (coupons shop) ''c1'' = Some save10"
    by (simp add: shop_def)
  have r: "ar_couponId redeem = ''c1''" "ar_orderId redeem = ''o1''" "ar_discountAmount redeem = 1"
    by (simp_all add: redeem_def)
  then have calls: "\<forall>call\<in>set [(1::nat, ann, redeem), (2, bob, redeem)].
            ar_couponId (snd (snd call)) = ''c1'' \<and>
            ar_orderId (snd (snd call)) \<noteq> [] \<and> 0 \<le> ar_discountAmount (snd (snd call))"
    by simp
  have u: "couponUsage shop = []"
    by (simp add: shop_def)
  have ne: "''c1'' \<noteq> []"
    by simp
  let ?calls = "[(1::nat, ann, redeem), (2, bob, redeem)]"
  from applyCoupon_unconditional[OF c ne calls]
  have a: "fst (applyCoupons shop ?calls)
             = replicate (length ?calls) (Inr ''Coupon applied successfully'')"
    and b: "length (couponUsage (snd (applyCoupons shop ?calls)))
             = length (couponUsage shop) + length ?calls"
    by blast+
  from a have a': "fst (applyCoupons shop ?calls)
             = [Inr ''Coupon applied successfully'', Inr ''Coupon applied successfully'']"
    by (simp del: applyCoupons.simps)
  from b u have b': "length (couponUsage (snd (applyCoupons shop ?calls))) = 2"
    by (simp del: applyCoupons.simps)
  from c r a' b' show ?thesis by blast
qed

section \<open>Validating a coupon\<close>

lemma toUpperCase_example: "toUpperCase ''save10'' = ''SAVE10''"
  by code_simp

lemma toUpperCase_upper: "toUpperCase ''SAVE10'' = ''SAVE10''"
  by code_simp

text \<open>
  The lookup of the handler finds the coupon that the lookup of the specification finds
  for the code in upper case.
\<close>

lemma find_filter_map:
  "(case filter P (map f xs) of [] \<Rightarrow> None | x # ys \<Rightarrow> Some x)
     = map_option f (List.find (\<lambda>x. P (f x)) xs)"
  by (induction xs) auto

lemma coupon_as_read_fields:
  "code (coupon_as_read c) = code c"
  "c_isActive (coupon_as_read c) = c_isActive c"
  "startDate (coupon_as_read c) = startDate c"
  "expiryDate (coupon_as_read c) = expiryDate c"
  "usedCount (coupon_as_read c) = usedCount c"
  "maxUses (coupon_as_read c) = truthy_limit (maxUses c)"
  "maxUsesPerUser (coupon_as_read c) = truthy_limit (maxUsesPerUser c)"
  "minOrderAmount (coupon_as_read c) = truthy_amount (minOrderAmount c)"
  "applicableCategories (coupon_as_read c) = applicableCategories c"
  "applicableProducts (coupon_as_read c) = applicableProducts c"
  by (simp_all add: coupon_as_read_def)

lemma spec_lookup_as_read:
  "spec_lookup (coupons_as_read d) (toUpperCase cd)
     = map_option (\<lambda>kc. (fst kc, coupon_as_read (snd kc))) (find_coupon d cd)"
  unfolding spec_lookup_def find_coupon_def coupons_as_read_def
  by (simp add: find_filter_map coupon_as_read_fields)

text \<open>Each condition of the handler is the check of the specification, failed.\<close>

lemma not_started_spec: "not_started t c = (\<not> spec_started t (coupon_as_read c))"
  by (auto simp: not_started_def spec_started_def coupon_as_read_fields split: option.splits)

lemma expired_spec: "expired t c = (\<not> spec_not_expired t (coupon_as_read c))"
  by (auto simp: expired_def spec_not_expired_def coupon_as_read_fields split: option.splits)

lemma limit_reached_spec: "limit_reached c = (\<not> spec_under_limit (coupon_as_read c))"
  by (auto simp: limit_reached_def spec_under_limit_def coupon_as_read_fields truthy_limit_def
      split: option.splits)

lemma count_list_filter: "count_list (map f xs) y = length (filter (\<lambda>x. f x = y) xs)"
  by (induction xs) auto

lemma spec_usage_count_as_read:
  "spec_usage_count (coupons_as_read d) cid uid = user_usage_count d cid uid"
proof -
  have "(\<lambda>us. (u_couponId us, u_userId us) = (cid, uid))
          = (\<lambda>us. u_couponId us = cid \<and> u_userId us = uid)"
    by auto
  then show ?thesis
    by (simp add: spec_usage_count_def user_usage_count_def coupons_as_read_def
        count_list_filter)
qed

lemma user_limit_reached_spec:
  "user_limit_reached d cid c r
     = (\<not> spec_under_user_limit (coupons_as_read d) cid (coupon_as_read c) (request_as_read r))"
  by (auto simp: user_limit_reached_def spec_under_user_limit_def spec_usage_count_as_read
      coupon_as_read_fields request_as_read_def truthy_limit_def truthy_id_def
      split: option.splits)

lemma minimum_not_met_spec:
  assumes "finite_nonneg (orderTotal r)"
  shows "minimum_not_met c r = (\<not> spec_minimum_met (coupon_as_read c) (request_as_read r))"
proof -
  from assms obtain x where x: "orderTotal r = Num x"
    by (cases "orderTotal r") auto
  show ?thesis
  proof (cases "minOrderAmount c")
    case None
    then show ?thesis
      by (simp add: minimum_not_met_def spec_minimum_met_def coupon_as_read_fields
          truthy_amount_def)
  next
    case (Some m)
    then show ?thesis
      using x
      by (cases m)
        (auto simp: minimum_not_met_def spec_minimum_met_def coupon_as_read_fields
          truthy_amount_def request_as_read_def)
  qed
qed

lemma category_not_applicable_spec:
  "category_not_applicable c r
     = (\<not> spec_category_ok (coupon_as_read c) (request_as_read r))"
  by (auto simp: category_not_applicable_def spec_category_ok_def coupon_as_read_fields
      request_as_read_def truthy_id_def truthy_str_def split: option.splits)

lemma product_not_applicable_spec:
  "product_not_applicable c r
     = (\<not> spec_product_ok (coupon_as_read c) (request_as_read r))"
  by (auto simp: product_not_applicable_def spec_product_ok_def coupon_as_read_fields
      request_as_read_def list_ex_iff split: option.splits)

lemma validate_body_ok_spec:
  "validate_body_ok r
     = (\<not> (vr_code (request_as_read r) = [] \<or> \<not> finite_nonneg (orderTotal (request_as_read r))))"
  by (cases "orderTotal r")
    (auto simp: validate_body_ok_def request_as_read_def toUpperCase_def)

text \<open>A check that fails after checks that pass decides, whatever the checks after it are.\<close>

lemma first_failing_short_circuit:
  assumes "list_all fst chs" and "\<not> fst ch"
  shows "first_failing (chs @ ch # rest) = Some (snd ch)"
  using assms by (induction chs) auto

text \<open>The arithmetic of the discount of ten percent on an order of 100.\<close>

lemma fl_10: "fl 10 = Num 10"
  by (simp add: fl_normal[of "- 49"] fl_eval)

lemma fl_1000: "fl 1000 = Num 1000"
  by (simp add: fl_normal[of "- 43"] fl_eval)

text \<open>
  The discount of the response is rounded from the double: a fixed discount of 1.005 on an
  order of 100 is multiplied to 100.49999999999999 and answered as 1.
\<close>

lemma fl_201_200: "fl (201 / 200) = Num (1131529406376837 / 1125899906842624)"
  by (simp add: fl_normal[of "- 52"] fl_eval)

lemma coupon_response_rounds_the_double:
  "fmul (fl (201 / 200)) (Num 100) = Num (7072058789855231 / 70368744177664)"
  "ci_discountAmount
     (coupon_response ''c1'' (save10\<lparr>discountType := ''fixed'', discountValue := fl (201 / 200)\<rparr>)
        (Num 100)) = Num 1"
  by (simp_all add: coupon_response_def discount_amount_def Math_min_def fl_201_200 fl_1
      fl_normal[of "- 46"] fl_eval)

text \<open>
  C8, as the specification states it, fails at the global limit. The coupon
  \<^verbatim>\<open>SAVE10\<close> has \<open>maxUses = 0\<close> and \<open>usedCount = 7\<close>, so \<open>usedCount < maxUses\<close> is
  false and the checks of the specification end with \<^verbatim>\<open>COUPON_LIMIT_REACHED\<close>; the
  handler answers with success and the discount of 10 on the order of 100.
\<close>

theorem validateCoupon_accepts_at_limit_zero:
  "coupons shop_limit_zero = [(''c1'', save10\<lparr>maxUses := Some 0, usedCount := 7\<rparr>)] \<and>
   validateCoupon 1000 shop_limit_zero validate_save10 =
     Inr \<lparr>ci_id = ''c1'', ci_code = ''SAVE10'', ci_discountType = ''percentage'',
          ci_discountValue = Num 10, ci_discountAmount = Num 10,
          ci_description = ''Ten percent off'', ci_freeShipping = False\<rparr> \<and>
   spec_under_limit (save10\<lparr>maxUses := Some 0, usedCount := 7\<rparr>) = False \<and>
   spec_validateCoupon 1000 shop_limit_zero validate_save10 = Some ''COUPON_LIMIT_REACHED''"
proof -
  have c: "coupons shop_limit_zero = [(''c1'', save10\<lparr>maxUses := Some 0, usedCount := 7\<rparr>)]"
    by (simp add: shop_limit_zero_def)
  have code_side: "validateCoupon 1000 shop_limit_zero validate_save10 =
     Inr \<lparr>ci_id = ''c1'', ci_code = ''SAVE10'', ci_discountType = ''percentage'',
          ci_discountValue = Num 10, ci_discountAmount = Num 10,
          ci_description = ''Ten percent off'', ci_freeShipping = False\<rparr>"
    by (simp add: validateCoupon_def validate_body_ok_def find_coupon_def c validate_save10_def
        toUpperCase_upper save10_def not_started_def expired_def limit_reached_def
        user_limit_reached_def minimum_not_met_def category_not_applicable_def
        product_not_applicable_def coupon_response_def discount_amount_def fl_10 fl_1000
        Math_min_def floor_rat_numeral)
  have l: "spec_under_limit (save10\<lparr>maxUses := Some 0, usedCount := 7\<rparr>) = False"
    by (simp add: spec_under_limit_def)
  have spec_side:
    "spec_validateCoupon 1000 shop_limit_zero validate_save10 = Some ''COUPON_LIMIT_REACHED''"
    by (simp add: spec_validateCoupon_def spec_lookup_def c validate_save10_def save10_def
        spec_checks_def spec_started_def spec_not_expired_def spec_under_limit_def)
  from c code_side l spec_side show ?thesis by blast
qed

text \<open>
  C8, amended. \<^verbatim>\<open>POST /validate\<close> answers with the error code of the first check that
  fails, in the order of the specification: the body is well formed, an active coupon has
  the code, the coupon has started, it has not expired, \<open>usedCount\<close> is below
  \<open>maxUses\<close>, the number of usage records of the coupon and the user is below
  \<open>maxUsesPerUser\<close>, the order total is at least the minimum order amount, the category
  is applicable, a product is applicable; it answers with success when none fails. This
  holds with the coupon and the request taken as the handler reads them: a \<open>maxUses\<close>,
  \<open>maxUsesPerUser\<close> or minimum order amount of 0 (or a minimum that is not a number) is
  no limit, an empty user id or category id is none, and the code of the request is
  compared in upper case.
\<close>

theorem validateCoupon_checks_as_read:
  "error_code (validateCoupon t d r)
     = spec_validateCoupon t (coupons_as_read d) (request_as_read r)"
proof (cases "validate_body_ok r")
  case False
  then show ?thesis
    using validate_body_ok_spec[of r]
    by (simp add: validateCoupon_def spec_validateCoupon_def error_code_def)
next
  case ok: True
  then have wf: "\<not> (vr_code (request_as_read r) = [] \<or>
                      \<not> finite_nonneg (orderTotal (request_as_read r)))"
    using validate_body_ok_spec[of r] by simp
  then have fin: "finite_nonneg (orderTotal r)"
    by (simp add: request_as_read_def)
  have cd: "vr_code (request_as_read r) = toUpperCase (vr_code r)"
    by (simp add: request_as_read_def)
  show ?thesis
  proof (cases "find_coupon d (vr_code r)")
    case None
    then have "spec_lookup (coupons_as_read d) (vr_code (request_as_read r)) = None"
      by (simp add: cd spec_lookup_as_read)
    with None ok wf show ?thesis
      by (simp add: validateCoupon_def spec_validateCoupon_def error_code_def)
  next
    case (Some found)
    obtain cid c where found: "found = (cid, c)" by (cases found) auto
    with Some have
      "spec_lookup (coupons_as_read d) (vr_code (request_as_read r)) = Some (cid, coupon_as_read c)"
      by (simp add: cd spec_lookup_as_read)
    with Some found ok wf show ?thesis
      by (simp add: validateCoupon_def spec_validateCoupon_def error_code_def spec_checks_def
          not_started_spec expired_spec limit_reached_spec user_limit_reached_spec
          minimum_not_met_spec[OF fin] category_not_applicable_spec
          product_not_applicable_spec)
  qed
qed

theorem validateCoupon_checks_as_read_witness:
  "error_code (validateCoupon 1000 shop_used_up (validate_save10\<lparr>vr_code := ''save10''\<rparr>))
     = Some ''COUPON_LIMIT_REACHED'' \<and>
   spec_validateCoupon 1000 (coupons_as_read shop_used_up)
     (request_as_read (validate_save10\<lparr>vr_code := ''save10''\<rparr>))
     = Some ''COUPON_LIMIT_REACHED''"
proof -
  have "validateCoupon 1000 shop_used_up (validate_save10\<lparr>vr_code := ''save10''\<rparr>)
          = Inl (400, ''COUPON_LIMIT_REACHED'')"
    by (simp add: validateCoupon_def validate_body_ok_def find_coupon_def shop_used_up_def
        validate_save10_def toUpperCase_example save10_def not_started_def expired_def
        limit_reached_def)
  then have "error_code (validateCoupon 1000 shop_used_up (validate_save10\<lparr>vr_code := ''save10''\<rparr>))
               = Some ''COUPON_LIMIT_REACHED''"
    by (simp add: error_code_def)
  with validateCoupon_checks_as_read[of 1000 shop_used_up "validate_save10\<lparr>vr_code := ''save10''\<rparr>"]
  show ?thesis by simp
qed

end
